theory Spec2Isabelle
  imports Complex_Main
begin

section \<open>BLELog: connections, scanner and the CSV consumer\<close>

text \<open>
  A shallow embedding of \<^verbatim>\<open>blelog/ActiveConnection.py\<close>, \<^verbatim>\<open>blelog/Scanner.py\<close> and
  \<^verbatim>\<open>blelog/consumers/log2csv.py\<close>. Conventions:
  \<^item> an object is a record and a method takes the object and returns it updated;
  \<^item> a raised exception is a value: a method that may raise returns \<open>exn option\<close> (the
    exception in flight, if any) together with the object, since the assignments made
    before the \<^verbatim>\<open>raise\<close> persist;
  \<^item> the logger \<^verbatim>\<open>logging.getLogger('log')\<close> is the list of the entries emitted so far;
    \<^verbatim>\<open>log.exception(e)\<close> is the entry \<open>(ERROR, str e)\<close>; \<^verbatim>\<open>print\<close> is not modelled;
  \<^item> what the transport, the clock, the file system and the other tasks do is an input:
    the outcome of a call, the reading of \<^verbatim>\<open>time.monotonic_ns()\<close>, the callbacks that
    fire while a task sleeps;
  \<^item> Python floats are exact rationals here: \<^verbatim>\<open>(now - last) / 1e9 > timeout\<close> is compared
    without rounding.
\<close>

subsection \<open>Exceptions and the log\<close>

datatype exn_class =
    ActiveConnectionException
  | BleakDBusError
  | BleakError
  | TimeoutError
  | FileNotFoundError
  | OSError
  | QueueFull
  | KeyError
  | AttributeError
  | OtherException

text \<open>An exception object: its class and \<^verbatim>\<open>str(e)\<close>.\<close>

datatype exn = Raised exn_class string

fun exn_str :: "exn \<Rightarrow> string" where
  "exn_str (Raised k m) = m"

text \<open>
  \<^verbatim>\<open>isinstance\<close>, as the \<^verbatim>\<open>except\<close> clauses see it: \<^verbatim>\<open>BleakDBusError\<close> derives from
  \<^verbatim>\<open>BleakError\<close> and \<^verbatim>\<open>FileNotFoundError\<close> from \<^verbatim>\<open>OSError\<close>. Every \<^verbatim>\<open>except OSError\<close>
  of the source stands after an \<^verbatim>\<open>except asyncio.TimeoutError\<close>, so whether
  \<^verbatim>\<open>TimeoutError\<close> derives from \<^verbatim>\<open>OSError\<close> (it does from Python 3.11 on) changes nothing.
\<close>

fun isinstance :: "exn \<Rightarrow> exn_class \<Rightarrow> bool" where
  "isinstance (Raised k m) c =
     (k = c \<or> (k = BleakDBusError \<and> c = BleakError) \<or> (k = FileNotFoundError \<and> c = OSError))"

datatype level = INFO | WARNING | ERROR

type_synonym log_entry = "level \<times> string"


subsection \<open>Configuration and notification data\<close>

datatype cell = Text string | Num rat

type_synonym row = "cell list"

type_synonym bytes = "nat list"

text \<open>
  \<^verbatim>\<open>Characteristic\<close> (its field \<^verbatim>\<open>name\<close> is \<open>char_name\<close> here). The decoder is supplied by
  the configuration; it returns the rows or raises.
\<close>

record Characteristic =
  char_name :: string
  uuid :: string
  timeout :: "rat option"
  column_headers :: "string list"
  data_decoder :: "bytes \<Rightarrow> exn + row list"

text \<open>
  The fields of \<^verbatim>\<open>Configuration\<close> that the three modules read. A compiled regular
  expression of \<^verbatim>\<open>connect_device_name_regexes\<close> is the predicate \<^verbatim>\<open>r.match\<close>.
\<close>

record Configuration =
  characteristics :: "Characteristic list"
  initial_characteristic_timeout :: "rat option"
  connect_device_name_regexes :: "(string \<Rightarrow> bool) list"
  connect_device_adrs :: "string list"
  device_aliases :: "string \<rightharpoonup> string"
  seen_timeout :: rat
  log2csv_folder_name :: string

text \<open>\<^verbatim>\<open>NotifData(adr, name, char, decoded_data, data)\<close> of \<^verbatim>\<open>blelog/ConsumerMgr.py\<close>.\<close>

record NotifData =
  device_adr :: string
  device_name :: string
  characteristic :: Characteristic
  data :: "row list"
  raw_data :: bytes

text \<open>
  \<^verbatim>\<open>asyncio.Queue\<close>: \<^verbatim>\<open>maxsize <= 0\<close> is unbounded; \<^verbatim>\<open>put_nowait\<close> raises \<^verbatim>\<open>QueueFull\<close>
  on a full queue and leaves it as it is.
\<close>

record 'a queue =
  maxsize :: int
  items :: "'a list"

definition full :: "'a queue \<Rightarrow> bool" where
  "full q = (if maxsize q \<le> 0 then False else int (length (items q)) \<ge> maxsize q)"

definition put_nowait :: "'a \<Rightarrow> 'a queue \<Rightarrow> exn option \<times> 'a queue" where
  "put_nowait x q =
     (if full q then (Some (Raised QueueFull []), q)
      else (None, q\<lparr>items := items q @ [x]\<rparr>))"

subsection \<open>ActiveConnection\<close>

datatype ConnectionState = CONNECTING | CONNECTED | DISCONNECTED

text \<open>
  The \<^verbatim>\<open>BleakClient\<close> as this module sees it: the address it was made for, the
  characteristics \<^verbatim>\<open>start_notify\<close> was called for, and how often \<^verbatim>\<open>disconnect()\<close> was
  called on it.
\<close>

record BleakClient =
  client_address :: string
  notifying :: "string list"
  disconnect_calls :: nat

text \<open>
  What the transport answers: whether the constructor raises, the outcome of
  \<^verbatim>\<open>wait_for(con.connect(), connection_timeout_hard)\<close>, of \<^verbatim>\<open>start_notify\<close> for a uuid and
  of the \<open>n\<close>-th \<^verbatim>\<open>wait_for(con.disconnect(), timeout=20)\<close>.
\<close>

record transport =
  client_ctor :: "exn option"
  connect_outcome :: "exn + bool"
  start_notify_outcome :: "string \<Rightarrow> exn option"
  disconnect_outcome :: "nat \<Rightarrow> exn + bool"

text \<open>
  The object (\<^verbatim>\<open>self.output\<close> is \<open>output_q\<close>). \<open>logged\<close> is what the object has sent
  to the logger; \<open>state_history\<close> lists the values assigned to \<^verbatim>\<open>self.state\<close>, in
  order (every assignment goes through \<open>set_state\<close>).
\<close>

record ActiveConnection =
  adr :: string
  name :: string
  config :: Configuration
  state :: ConnectionState
  state_history :: "ConnectionState list"
  disconnected_callback_flag :: bool
  did_disconnect :: bool
  output_q :: "NotifData queue"
  con :: "BleakClient option"
  initial_connection_time :: "int option"
  last_notif :: "string \<rightharpoonup> int option"
  logged :: "log_entry list"

definition emit :: "level \<Rightarrow> string \<Rightarrow> ActiveConnection \<Rightarrow> ActiveConnection" where
  "emit l m s = s\<lparr>logged := logged s @ [(l, m)]\<rparr>"

definition set_state :: "ConnectionState \<Rightarrow> ActiveConnection \<Rightarrow> ActiveConnection" where
  "set_state v s = s\<lparr>state := v, state_history := state_history s @ [v]\<rparr>"

definition init_ActiveConnection ::
  "string \<Rightarrow> string \<Rightarrow> Configuration \<Rightarrow> NotifData queue \<Rightarrow> ActiveConnection" where
  "init_ActiveConnection a n cfg out =
     \<lparr>adr = a, name = n, config = cfg, state = CONNECTING, state_history = [CONNECTING],
      disconnected_callback_flag = False, did_disconnect = False, output_q = out, con = None,
      initial_connection_time = None,
      last_notif = map_of (map (\<lambda>c. (uuid c, None)) (characteristics cfg)),
      logged = []\<rparr>"

text \<open>\<^verbatim>\<open>_do_disconnect\<close>: no guard other than \<^verbatim>\<open>self.con is not None\<close>.\<close>

definition do_disconnect :: "transport \<Rightarrow> ActiveConnection \<Rightarrow> exn option \<times> ActiveConnection" where
  "do_disconnect tr s =
     (case con s of
        None \<Rightarrow> (None, s)
      | Some c \<Rightarrow>
          (let s1 = s\<lparr>con := Some (c\<lparr>disconnect_calls := Suc (disconnect_calls c)\<rparr>)\<rparr>
           in case disconnect_outcome tr (disconnect_calls c) of
                Inr did \<Rightarrow>
                  (None,
                   (emit WARNING
                      (if did then ''Disconnected from '' @ name s @ ''.''
                       else ''Failed to disconnect from '' @ name s @ '': Bleak Error.'') s1)
                   \<lparr>did_disconnect := True\<rparr>)
              | Inl e \<Rightarrow>
                  if isinstance e BleakDBusError then
                    (None, (emit WARNING (''Failed to disconnect from '' @ name s @ '': DBus Error.'') s1)
                           \<lparr>did_disconnect := True\<rparr>)
                  else if isinstance e BleakError then
                    (None, (emit WARNING (''Failed to disconnect from '' @ name s @ '': '' @ exn_str e) s1)
                           \<lparr>did_disconnect := True\<rparr>)
                  else if isinstance e TimeoutError then
                    (None, (emit WARNING (''Failed to disconnect from '' @ name s @ '': Timeout'') s1)
                           \<lparr>did_disconnect := True\<rparr>)
                  else if isinstance e OSError then
                    (None, (emit WARNING (''Failed to disconnect from '' @ name s @ '': OSError'') s1)
                           \<lparr>did_disconnect := True\<rparr>)
                  else (Some e, s1\<lparr>did_disconnect := True\<rparr>)))"

text \<open>The loop of \<^verbatim>\<open>_connect\<close> that enables the notifications, one characteristic at a time.\<close>

fun start_notify_all ::
  "transport \<Rightarrow> Characteristic list \<Rightarrow> BleakClient \<Rightarrow> exn option \<times> BleakClient" where
  "start_notify_all tr [] c = (None, c)"
| "start_notify_all tr (ch # chs) c =
     (case start_notify_outcome tr (uuid ch) of
        Some e \<Rightarrow> (Some e, c)
      | None \<Rightarrow> start_notify_all tr chs (c\<lparr>notifying := notifying c @ [uuid ch]\<rparr>))"

text \<open>\<^verbatim>\<open>_connect\<close>. \<^verbatim>\<open>self.state\<close> becomes \<^verbatim>\<open>CONNECTED\<close> in its last statement only.\<close>

definition connect :: "transport \<Rightarrow> ActiveConnection \<Rightarrow> exn option \<times> ActiveConnection" where
  "connect tr s =
     (case con s of
        None \<Rightarrow> (Some (Raised AttributeError ''connect''), s)
      | Some c \<Rightarrow>
          (case connect_outcome tr of
             Inl e \<Rightarrow>
               if isinstance e BleakDBusError then
                 (Some (Raised ActiveConnectionException []),
                  emit ERROR (exn_str e)
                    (emit WARNING (''Failed to connect to '' @ name s @ '': DBus Error.'') s))
               else if isinstance e BleakError then
                 (Some (Raised ActiveConnectionException []),
                  emit ERROR (exn_str e)
                    (emit WARNING (''Failed to connect to '' @ name s @ '': '' @ exn_str e) s))
               else if isinstance e TimeoutError then
                 (Some (Raised ActiveConnectionException []),
                  emit WARNING (''Failed to connect to '' @ name s @ '': Timeout'') s)
               else if isinstance e OSError then
                 (Some (Raised ActiveConnectionException []),
                  emit ERROR (exn_str e)
                    (emit WARNING (''Failed to connect to '' @ name s @ '': OSError'') s))
               else (Some e, s)
           | Inr ok \<Rightarrow>
               if \<not> ok then
                 (Some (Raised ActiveConnectionException []),
                  emit WARNING (''Failed to connect to '' @ name s @ ''!'') s)
               else
                 (let s1 = emit INFO (''Established connection to '' @ name s @ ''!'') s
                  in case start_notify_all tr (characteristics (config s)) c of
                       (Some e, c') \<Rightarrow> (Some e, s1\<lparr>con := Some c'\<rparr>)
                     | (None, c') \<Rightarrow>
                         (None,
                          set_state CONNECTED
                            (emit INFO
                               (''Enabled notifications for all characteristic for '' @ name s @ ''!'')
                               (s1\<lparr>con := Some c'\<rparr>))))))"

text \<open>\<^verbatim>\<open>(now - then) / 1e9\<close>, in seconds.\<close>

definition has_been :: "int \<Rightarrow> int \<Rightarrow> rat" where
  "has_been now past = of_int (now - past) / 1000000000"

text \<open>
  \<^verbatim>\<open>_check_for_timeout\<close>: the loop over the characteristics. \<open>now\<close> is the reading of
  \<^verbatim>\<open>time.monotonic_ns()\<close> during this health check (the readings taken within one
  check are taken to be the same). The first branch disconnects and raises; the second one
  disconnects and goes on with the next characteristic.
\<close>

fun check_chars ::
  "transport \<Rightarrow> int \<Rightarrow> Characteristic list \<Rightarrow> ActiveConnection \<Rightarrow> exn option \<times> ActiveConnection" where
  "check_chars tr now [] s = (None, s)"
| "check_chars tr now (ch # chs) s =
     (case timeout ch of
        None \<Rightarrow> check_chars tr now chs s
      | Some t \<Rightarrow>
          (case last_notif s (uuid ch) of
             None \<Rightarrow> (Some (Raised KeyError (uuid ch)), s)
           | Some (Some lst) \<Rightarrow>
               if has_been now lst > t then
                 (case do_disconnect tr
                         (emit WARNING
                            (name s @ '': Timeout for characteristic '' @ char_name ch
                               @ '' expired, disconnecting..'') s) of
                    (Some e, s') \<Rightarrow> (Some e, s')
                  | (None, s') \<Rightarrow> (Some (Raised ActiveConnectionException []), s'))
               else check_chars tr now chs s
           | Some None \<Rightarrow>
               (case initial_characteristic_timeout (config s) of
                  None \<Rightarrow> check_chars tr now chs s
                | Some g \<Rightarrow>
                    (case initial_connection_time s of
                       None \<Rightarrow> (Some (Raised OtherException ''Implementation error''), s)
                     | Some t0 \<Rightarrow>
                         if has_been now t0 > t + g then
                           (case do_disconnect tr
                                   (emit WARNING
                                      (name s @ '': Never received a notification for ''
                                         @ char_name ch @ '', disconnecting...'') s) of
                              (Some e, s') \<Rightarrow> (Some e, s')
                            | (None, s') \<Rightarrow> check_chars tr now chs s')
                         else check_chars tr now chs s))))"

definition check_for_timeout ::
  "transport \<Rightarrow> int \<Rightarrow> ActiveConnection \<Rightarrow> exn option \<times> ActiveConnection" where
  "check_for_timeout tr now s = check_chars tr now (characteristics (config s)) s"

text \<open>\<^verbatim>\<open>_disconnected_callback\<close> and \<^verbatim>\<open>_notif_callback\<close>; \<open>now\<close> is the clock reading.\<close>

definition disconnected_callback :: "ActiveConnection \<Rightarrow> ActiveConnection" where
  "disconnected_callback s = s\<lparr>did_disconnect := True\<rparr>"

definition notif_callback ::
  "int \<Rightarrow> bytes \<Rightarrow> Characteristic \<Rightarrow> ActiveConnection \<Rightarrow> ActiveConnection" where
  "notif_callback now d ch s =
     (let s1 = s\<lparr>last_notif := (last_notif s)(uuid ch \<mapsto> Some now)\<rparr>
      in case data_decoder ch d of
           Inl e \<Rightarrow>
             emit ERROR (exn_str e)
               (emit ERROR (''Decoder for '' @ char_name ch @ '' raised an exception: '' @ exn_str e) s1)
         | Inr decoded_data \<Rightarrow>
             if length decoded_data = 0 then s1
             else
               (case put_nowait
                       \<lparr>device_adr = adr s, device_name = name s, characteristic = ch,
                        data = decoded_data, raw_data = d\<rparr> (output_q s1) of
                  (Some e, q) \<Rightarrow> emit ERROR (name s @ '' failed to put data into queue!'') s1
                | (None, q) \<Rightarrow> s1\<lparr>output_q := q\<rparr>))"

text \<open>
  The callbacks the transport invokes between two steps of the task, and one iteration of
  the \<^verbatim>\<open>while not halt.is_set()\<close> loop as the environment shapes it: what
  \<^verbatim>\<open>halt.is_set()\<close> answers at the loop head, the clock reading of the health check, and
  the callbacks that fire during \<^verbatim>\<open>await asyncio.sleep(0.05)\<close>. Callbacks that fire while
  the task waits for the transport to connect or to disconnect are not modelled.
\<close>

datatype callback = Notification int bytes Characteristic | Disconnected

fun deliver :: "callback \<Rightarrow> ActiveConnection \<Rightarrow> ActiveConnection" where
  "deliver (Notification now d ch) s = notif_callback now d ch s"
| "deliver Disconnected s = disconnected_callback s"

record tick =
  halt_is_set :: bool
  clock :: int
  during_sleep :: "callback list"

text \<open>
  A loop over a finite list of iterations either leaves the loop (normally, or with an
  exception in flight) or is still running when the list ends.
\<close>

datatype loop_result = StillRunning | Exited "exn option"

datatype 'a outcome = Running 'a | Finished 'a

fun poll_loop :: "transport \<Rightarrow> tick list \<Rightarrow> ActiveConnection \<Rightarrow> loop_result \<times> ActiveConnection" where
  "poll_loop tr [] s = (StillRunning, s)"
| "poll_loop tr (t # ts) s =
     (if halt_is_set t then (Exited None, s)
      else if did_disconnect s then
        (Exited (Some (Raised ActiveConnectionException [])),
         emit WARNING (''Connection to '' @ name s @ '' lost!'') s)
      else
        (case check_for_timeout tr (clock t) s of
           (Some e, s') \<Rightarrow> (Exited (Some e), s')
         | (None, s') \<Rightarrow> poll_loop tr ts (fold deliver (during_sleep t) s')))"

text \<open>
  The inner \<^verbatim>\<open>except ActiveConnectionException: pass\<close> and \<^verbatim>\<open>finally: await
  self._do_disconnect()\<close>: an exception of the \<^verbatim>\<open>finally\<close> block replaces the one in flight.
\<close>

definition inner_finally ::
  "transport \<Rightarrow> exn option \<Rightarrow> ActiveConnection \<Rightarrow> exn option \<times> ActiveConnection" where
  "inner_finally tr pending s =
     (case do_disconnect tr s of
        (Some e, s') \<Rightarrow> (Some e, s')
      | (None, s') \<Rightarrow>
          (case pending of
             None \<Rightarrow> (None, s')
           | Some e \<Rightarrow> if isinstance e ActiveConnectionException then (None, s') else (Some e, s')))"

text \<open>The outer \<^verbatim>\<open>except Exception\<close> and \<^verbatim>\<open>finally: self.state = DISCONNECTED\<close>.\<close>

definition outer_handlers :: "exn option \<Rightarrow> ActiveConnection \<Rightarrow> ActiveConnection" where
  "outer_handlers pending s =
     set_state DISCONNECTED
       (case pending of
          None \<Rightarrow> s
        | Some e \<Rightarrow>
            (emit ERROR (exn_str e)
               (emit ERROR (''Connection '' @ name s @ '' encountered an exception: '' @ exn_str e) s))
            \<lparr>did_disconnect := True\<rparr>)"

definition teardown :: "transport \<Rightarrow> exn option \<Rightarrow> ActiveConnection \<Rightarrow> ActiveConnection" where
  "teardown tr pending s = (case inner_finally tr pending s of (p, s') \<Rightarrow> outer_handlers p s')"

text \<open>
  What \<^verbatim>\<open>run\<close> does once \<^verbatim>\<open>_connect\<close> has returned: the polling loop, then the handlers.
\<close>

definition supervise :: "transport \<Rightarrow> tick list \<Rightarrow> ActiveConnection \<Rightarrow> ActiveConnection outcome" where
  "supervise tr ticks s =
     (case poll_loop tr ticks s of
        (StillRunning, s') \<Rightarrow> Running s'
      | (Exited p, s') \<Rightarrow> Finished (teardown tr p s'))"

text \<open>
  \<^verbatim>\<open>ActiveConnection.run\<close>. \<open>t_connected\<close> is the clock reading stored in
  \<^verbatim>\<open>initial_connection_time\<close>.
\<close>

definition run :: "transport \<Rightarrow> int \<Rightarrow> tick list \<Rightarrow> ActiveConnection \<Rightarrow> ActiveConnection outcome" where
  "run tr t_connected ticks s =
     (case client_ctor tr of
        Some e \<Rightarrow> Finished (outer_handlers (Some e) s)
      | None \<Rightarrow>
          (let s1 = s\<lparr>con := Some \<lparr>client_address = adr s, notifying = [], disconnect_calls = 0\<rparr>\<rparr>
           in if did_disconnect s1 then
                Finished (teardown tr (Some (Raised ActiveConnectionException [])) s1)
              else
                (case connect tr s1 of
                   (Some e, s2) \<Rightarrow> Finished (teardown tr (Some e) s2)
                 | (None, s2) \<Rightarrow>
                     supervise tr ticks (s2\<lparr>initial_connection_time := Some t_connected\<rparr>))))"

text \<open>
  The number of \<^verbatim>\<open>con.disconnect()\<close> calls made on the connection's client so far, and the
  object a task has reached, finished or not.
\<close>

definition calls :: "ActiveConnection \<Rightarrow> nat" where
  "calls s = (case con s of None \<Rightarrow> 0 | Some c \<Rightarrow> disconnect_calls c)"

fun result :: "'a outcome \<Rightarrow> 'a" where
  "result (Running s) = s"
| "result (Finished s) = s"

fun finished :: "'a outcome \<Rightarrow> bool" where
  "finished (Running s) = False"
| "finished (Finished s) = True"

text \<open>
  The conditions of the two branches of the health check, for one characteristic at the
  clock reading \<open>now\<close>: no notification was ever received and the timeout plus the
  initial grace has passed since the connection was made; a notification was received and
  the timeout has passed since the last one. \<open>never_notified_warning\<close> and
  \<open>timeout_warning\<close> are the entries the two branches log.
\<close>

definition never_notified_expired :: "int \<Rightarrow> Characteristic \<Rightarrow> ActiveConnection \<Rightarrow> bool" where
  "never_notified_expired now ch s =
     (case (timeout ch, last_notif s (uuid ch), initial_characteristic_timeout (config s),
            initial_connection_time s) of
        (Some t, Some None, Some g, Some t0) \<Rightarrow> has_been now t0 > t + g
      | _ \<Rightarrow> False)"

definition timeout_expired :: "int \<Rightarrow> Characteristic \<Rightarrow> ActiveConnection \<Rightarrow> bool" where
  "timeout_expired now ch s =
     (case (timeout ch, last_notif s (uuid ch)) of
        (Some t, Some (Some lst)) \<Rightarrow> has_been now lst > t
      | _ \<Rightarrow> False)"

text \<open>A callback that is not a notification for the characteristic with uuid \<open>u\<close>.\<close>

definition other_uuid :: "string \<Rightarrow> callback \<Rightarrow> bool" where
  "other_uuid u cb = (case cb of Notification n d c \<Rightarrow> uuid c \<noteq> u | Disconnected \<Rightarrow> True)"

definition timeout_warning :: "ActiveConnection \<Rightarrow> Characteristic \<Rightarrow> log_entry" where
  "timeout_warning s ch =
     (WARNING, name s @ '': Timeout for characteristic '' @ char_name ch @ '' expired, disconnecting..'')"

definition never_notified_warning :: "ActiveConnection \<Rightarrow> Characteristic \<Rightarrow> log_entry" where
  "never_notified_warning s ch =
     (WARNING, name s @ '': Never received a notification for '' @ char_name ch @ '', disconnecting...'')"

subsection \<open>Scanner\<close>

datatype SeenDeviceState = NOT_SEEN | RECENTLY_SEEN

text \<open>\<^verbatim>\<open>SeenDevice\<close>; its fields \<^verbatim>\<open>adr\<close>, \<^verbatim>\<open>alias\<close>, \<^verbatim>\<open>state\<close> and \<^verbatim>\<open>name\<close> carry the prefix \<open>seen_\<close>.\<close>

record SeenDevice =
  seen_adr :: string
  seen_alias :: "string option"
  seen_state :: SeenDeviceState
  seen_name :: "string option"
  last_seen :: "int option"
  rssi :: "int option"

text \<open>What a scan returns for one device: the \<^verbatim>\<open>BLEDevice\<close> and its \<^verbatim>\<open>AdvertisementData\<close>.\<close>

record BLEDevice =
  address :: string
  ble_name :: "string option"

record AdvertisementData =
  adv_rssi :: int

record Scanner =
  scanner_config :: Configuration
  name_regexes :: "(string \<Rightarrow> bool) list"
  seen_devices :: "string \<rightharpoonup> SeenDevice"
  scanner_logged :: "log_entry list"

text \<open>
  \<^verbatim>\<open>Scanner.__init__\<close>: the table is pre-populated under the addresses of
  \<^verbatim>\<open>connect_device_adrs\<close> as the configuration gives them.
\<close>

fun prepopulate :: "Configuration \<Rightarrow> string list \<Rightarrow> (string \<rightharpoonup> SeenDevice) \<Rightarrow> (string \<rightharpoonup> SeenDevice)" where
  "prepopulate cfg [] m = m"
| "prepopulate cfg (a # adrs) m =
     prepopulate cfg adrs
       (m(a \<mapsto> \<lparr>seen_adr = a, seen_alias = device_aliases cfg a, seen_state = NOT_SEEN,
                 seen_name = None, last_seen = None, rssi = None\<rparr>))"

text \<open>The record \<^verbatim>\<open>__init__\<close> stores for a configured address.\<close>

definition prepopulated :: "Configuration \<Rightarrow> string \<Rightarrow> SeenDevice" where
  "prepopulated cfg a =
     \<lparr>seen_adr = a, seen_alias = device_aliases cfg a, seen_state = NOT_SEEN,
      seen_name = None, last_seen = None, rssi = None\<rparr>"

definition init_Scanner :: "Configuration \<Rightarrow> Scanner" where
  "init_Scanner cfg =
     \<lparr>scanner_config = cfg, name_regexes = connect_device_name_regexes cfg,
      seen_devices = prepopulate cfg (connect_device_adrs cfg) Map.empty,
      scanner_logged = []\<rparr>"

text \<open>
  \<^verbatim>\<open>_update_seen_devices\<close>. \<^verbatim>\<open>normalise_adr\<close> is defined in \<^verbatim>\<open>blelog/Util.py\<close>; it is the
  parameter of the same name. The loop over the regular expressions of an unknown device has no
  \<^verbatim>\<open>break\<close>: every matching expression stores the device again.
\<close>

fun add_if_matching ::
  "Configuration \<Rightarrow> (string \<Rightarrow> bool) list \<Rightarrow> string \<Rightarrow> BLEDevice \<Rightarrow> AdvertisementData \<Rightarrow> int
     \<Rightarrow> (string \<rightharpoonup> SeenDevice) \<Rightarrow> (string \<rightharpoonup> SeenDevice)" where
  "add_if_matching cfg [] a d adv t m = m"
| "add_if_matching cfg (r # rs) a d adv t m =
     (case ble_name d of
        None \<Rightarrow> add_if_matching cfg rs a d adv t m
      | Some n \<Rightarrow>
          if r n then
            add_if_matching cfg rs a d adv t
              (m(a \<mapsto> \<lparr>seen_adr = a, seen_alias = device_aliases cfg a, seen_state = RECENTLY_SEEN,
                        seen_name = Some n, last_seen = Some t, rssi = Some (adv_rssi adv)\<rparr>))
          else add_if_matching cfg rs a d adv t m)"

fun update_devices ::
  "(string \<Rightarrow> string) \<Rightarrow> Configuration \<Rightarrow> (string \<Rightarrow> bool) list \<Rightarrow> int
     \<Rightarrow> (BLEDevice \<times> AdvertisementData) list \<Rightarrow> (string \<rightharpoonup> SeenDevice) \<Rightarrow> (string \<rightharpoonup> SeenDevice)" where
  "update_devices normalise_adr cfg rs t [] m = m"
| "update_devices normalise_adr cfg rs t ((d, adv) # ds) m =
     (let a = normalise_adr (address d)
      in case m a of
           Some dev \<Rightarrow>
             update_devices normalise_adr cfg rs t ds
               (m(a \<mapsto> dev\<lparr>last_seen := Some t, seen_name := ble_name d,
                              rssi := Some (adv_rssi adv), seen_state := RECENTLY_SEEN\<rparr>))
         | None \<Rightarrow> update_devices normalise_adr cfg rs t ds (add_if_matching cfg rs a d adv t m))"

text \<open>The check for seen-recently timeouts; \<open>now\<close> is the clock reading.\<close>

definition age_out :: "Configuration \<Rightarrow> int \<Rightarrow> SeenDevice \<Rightarrow> SeenDevice" where
  "age_out cfg now dev =
     (if seen_state dev = RECENTLY_SEEN then
        (case last_seen dev of
           None \<Rightarrow> dev
         | Some ls \<Rightarrow>
             if has_been now ls > seen_timeout cfg then dev\<lparr>seen_state := NOT_SEEN\<rparr> else dev)
      else dev)"

definition update_seen_devices ::
  "(string \<Rightarrow> string) \<Rightarrow> (BLEDevice \<times> AdvertisementData) list \<Rightarrow> int \<Rightarrow> int \<Rightarrow> Scanner \<Rightarrow> Scanner" where
  "update_seen_devices normalise_adr devices t now sc =
     sc\<lparr>seen_devices :=
          map_option (age_out (scanner_config sc) now) \<circ>
            update_devices normalise_adr (scanner_config sc) (name_regexes sc) t devices (seen_devices sc)\<rparr>"




subsection \<open>The CSV consumer\<close>

text \<open>
  \<^verbatim>\<open>CSVLogger\<close> (\<^verbatim>\<open>file_path\<close> and \<^verbatim>\<open>column_headers\<close> carry the prefix \<open>csv_\<close>). Its queue is
  unbounded, so \<^verbatim>\<open>put\<close> appends.
\<close>

record CSVLogger =
  csv_file_path :: string
  input_q :: "NotifData list"
  csv_column_headers :: "string list"
  active :: bool

text \<open>
  A writer task: the logger it runs, the files (a path that exists maps to the csv rows
  in the file; \<^verbatim>\<open>csv.writer\<close> itself is not modelled), whether \<^verbatim>\<open>f\<close> is set and how
  often \<^verbatim>\<open>f.close()\<close> was called, what it logged and whether it called \<^verbatim>\<open>halt.set()\<close>.
\<close>

record writer =
  csv :: CSVLogger
  files :: "string \<rightharpoonup> row list"
  f_open :: bool
  f_closes :: nat
  writer_logged :: "log_entry list"
  writer_halt_set :: bool

definition write_rows :: "row list \<Rightarrow> writer \<Rightarrow> writer" where
  "write_rows rows w =
     w\<lparr>files := (files w)(csv_file_path (csv w) \<mapsto>
                   (case files w (csv_file_path (csv w)) of None \<Rightarrow> [] | Some old \<Rightarrow> old) @ rows)\<rparr>"

definition write_row :: "string list \<Rightarrow> writer \<Rightarrow> writer" where
  "write_row r w = write_rows [map Text r] w"

text \<open>
  The statements of \<^verbatim>\<open>CSVLogger.run\<close> before its loop. \<open>open_exn\<close> is the exception
  \<^verbatim>\<open>aiofiles.open\<close> raises, if any, \<open>header_exn\<close> the one the write of the headers raises.
\<close>

definition csv_open :: "exn option \<Rightarrow> exn option \<Rightarrow> writer \<Rightarrow> exn option \<times> writer" where
  "csv_open open_exn header_exn w =
     (case open_exn of
        Some e \<Rightarrow> (Some e, w)
      | None \<Rightarrow>
          if files w (csv_file_path (csv w)) \<noteq> None then (None, w\<lparr>f_open := True\<rparr>)
          else
            (let w1 = w\<lparr>files := (files w)(csv_file_path (csv w) \<mapsto> []), f_open := True\<rparr>
             in case header_exn of
                  Some e \<Rightarrow> (Some e, w1)
                | None \<Rightarrow> (None, write_row (csv_column_headers (csv w)) w1)))"

text \<open>
  One iteration of the writer's loop: the records the consumer has put into the queue
  since the last iteration, the answer of \<^verbatim>\<open>halt.is_set()\<close>, and the exception the
  write or the flush raises, if any. With an empty queue \<^verbatim>\<open>wait_for\<close> times out.
\<close>

record csv_tick =
  arrivals :: "NotifData list"
  csv_halt_is_set :: bool
  write_exn :: "exn option"

fun csv_loop :: "csv_tick list \<Rightarrow> writer \<Rightarrow> loop_result \<times> writer" where
  "csv_loop [] w = (StillRunning, w)"
| "csv_loop (t # ts) w =
     (let q = input_q (csv w) @ arrivals t
      in if csv_halt_is_set t \<and> q = [] then (Exited None, w\<lparr>csv := (csv w)\<lparr>input_q := q\<rparr>\<rparr>)
         else
           (case q of
              [] \<Rightarrow> csv_loop ts (w\<lparr>csv := (csv w)\<lparr>input_q := q\<rparr>\<rparr>)
            | next_data # rest \<Rightarrow>
                (let w1 = w\<lparr>csv := (csv w)\<lparr>input_q := rest\<rparr>\<rparr>
                 in case write_exn t of
                      None \<Rightarrow> csv_loop ts (write_rows (data next_data) w1)
                    | Some e \<Rightarrow>
                        if isinstance e TimeoutError then csv_loop ts w1
                        else (Exited (Some e), w1))))"

text \<open>The handlers of \<^verbatim>\<open>CSVLogger.run\<close> and its \<^verbatim>\<open>finally\<close> block.\<close>

definition csv_handlers :: "exn option \<Rightarrow> writer \<Rightarrow> writer" where
  "csv_handlers pending w =
     (let msg = (\<lambda>e. [(ERROR, ''CSVLogger '' @ csv_file_path (csv w) @ '' encountered an exception: ''
                              @ exn_str e), (ERROR, exn_str e)]);
          w1 = (case pending of
                  None \<Rightarrow> w
                | Some e \<Rightarrow>
                    if isinstance e FileNotFoundError then
                      w\<lparr>writer_logged := writer_logged w @ msg e\<rparr>
                    else w\<lparr>writer_logged := writer_logged w @ msg e, writer_halt_set := True\<rparr>)
      in w1\<lparr>csv := (csv w1)\<lparr>active := False\<rparr>,
            f_closes := (if f_open w1 then Suc (f_closes w1) else f_closes w1)\<rparr>)"

definition csv_run :: "exn option \<Rightarrow> exn option \<Rightarrow> csv_tick list \<Rightarrow> writer \<Rightarrow> writer outcome" where
  "csv_run open_exn header_exn ticks w =
     (case csv_open open_exn header_exn w of
        (Some e, w1) \<Rightarrow> Finished (csv_handlers (Some e) w1)
      | (None, w1) \<Rightarrow>
          (case csv_loop ticks w1 of
             (StillRunning, w2) \<Rightarrow> Running w2
           | (Exited p, w2) \<Rightarrow> Finished (csv_handlers p w2)))"

text \<open>
  The rows a writer may still have to write: those of the records in its queue and of the
  records that arrive during the given iterations.
\<close>

definition pending_rows :: "csv_tick list \<Rightarrow> writer \<Rightarrow> row set" where
  "pending_rows ticks w =
     (\<Union>x \<in> set (input_q (csv w)) \<union> (\<Union>t \<in> set ticks. set (arrivals t)). set (data x))"

text \<open>
  \<^verbatim>\<open>Consumer_log2csv\<close>. \<open>tasks\<close> lists the writer tasks by the path they were created
  for; \<open>consumer_q\<close> is the \<^verbatim>\<open>input_q\<close> of the base class.
\<close>

record Consumer_log2csv =
  consumer_config :: Configuration
  consumer_q :: "NotifData list"
  file_outputs :: "string \<rightharpoonup> CSVLogger"
  tasks :: "string list"
  consumer_logged :: "log_entry list"

definition init_Consumer_log2csv :: "Configuration \<Rightarrow> Consumer_log2csv" where
  "init_Consumer_log2csv cfg =
     \<lparr>consumer_config = cfg, consumer_q = [], file_outputs = Map.empty, tasks = [],
      consumer_logged = []\<rparr>"

text \<open>\<^verbatim>\<open>str.replace\<close> of one character by another, and \<^verbatim>\<open>os.path.join\<close> (POSIX) of two parts.\<close>

definition replace_char :: "char \<Rightarrow> char \<Rightarrow> string \<Rightarrow> string" where
  "replace_char a b s = map (\<lambda>c. if c = a then b else c) s"

definition path_join :: "string \<Rightarrow> string \<Rightarrow> string" where
  "path_join a b =
     (if b \<noteq> [] \<and> hd b = CHR ''/'' then b
      else if a = [] \<or> last a = CHR ''/'' then a @ b
      else a @ ''/'' @ b)"

definition file_path :: "Configuration \<Rightarrow> string \<Rightarrow> Characteristic \<Rightarrow> string" where
  "file_path cfg dev_adr ch =
     (let nm = (case device_aliases cfg dev_adr of
                  Some al \<Rightarrow> al
                | None \<Rightarrow> replace_char (CHR '':'') (CHR ''_'') dev_adr);
          n = replace_char (CHR '' '') (CHR ''_'') (nm @ ''_'' @ char_name ch @ ''.csv'')
      in path_join (log2csv_folder_name cfg) n)"

text \<open>\<^verbatim>\<open>_log_to_file\<close>.\<close>

definition log_to_file :: "NotifData \<Rightarrow> Consumer_log2csv \<Rightarrow> Consumer_log2csv" where
  "log_to_file next_data c =
     (let p = file_path (consumer_config c) (device_adr next_data) (characteristic next_data);
          c1 = (if file_outputs c p = None then
                  c\<lparr>file_outputs := (file_outputs c)(p \<mapsto>
                       \<lparr>csv_file_path = p, input_q = [],
                        csv_column_headers = column_headers (characteristic next_data),
                        active = True\<rparr>),
                    tasks := tasks c @ [p]\<rparr>
                else c)
      in case file_outputs c1 p of
           None \<Rightarrow> c1
         | Some lg \<Rightarrow>
             if active lg then
               c1\<lparr>file_outputs := (file_outputs c1)(p \<mapsto> lg\<lparr>input_q := input_q lg @ [next_data]\<rparr>)\<rparr>
             else c1)"




subsection \<open>Sample values\<close>

text \<open>
  Concrete values for the scenarios below, after \<^verbatim>\<open>config.py\<close> (uuids and addresses
  shortened). The decoders of \<^verbatim>\<open>char_decoders\<close> are not part of the modules above;
  \<open>sample_decoder\<close> stands for one: it returns no row for an empty payload, raises for a
  payload that starts with 255 and returns one row otherwise.
\<close>

definition sample_decoder :: "bytes \<Rightarrow> exn + row list" where
  "sample_decoder d =
     (case d of
        [] \<Rightarrow> Inr []
      | b # bs \<Rightarrow>
          if b = 255 then Inl (Raised OtherException ''bad payload'')
          else Inr [[Num (of_nat (length bs)), Num (of_nat b)]])"

definition ppg_red :: Characteristic where
  "ppg_red =
     \<lparr>char_name = ''ppg_red'', uuid = ''0001'', timeout = Some (3 / 2),
      column_headers = [''index'', ''ppg red''], data_decoder = sample_decoder\<rparr>"

definition temp :: Characteristic where
  "temp =
     \<lparr>char_name = ''temp'', uuid = ''0002'', timeout = None,
      column_headers = [''index'', ''temp''], data_decoder = sample_decoder\<rparr>"

definition sample_config :: Configuration where
  "sample_config =
     \<lparr>characteristics = [ppg_red, temp], initial_characteristic_timeout = Some 10,
      connect_device_name_regexes = [], connect_device_adrs = [''EB:E5''],
      device_aliases = [''EB:E5'' \<mapsto> ''SP-Case''], seen_timeout = 20,
      log2csv_folder_name = ''logs''\<rparr>"

definition sample_connection :: ActiveConnection where
  "sample_connection =
     init_ActiveConnection ''EB:E5'' ''SP-Case'' sample_config \<lparr>maxsize = 1, items = []\<rparr>"

text \<open>A transport on which every call succeeds.\<close>

definition sample_transport :: transport where
  "sample_transport =
     \<lparr>client_ctor = None, connect_outcome = Inr True, start_notify_outcome = (\<lambda>u. None),
      disconnect_outcome = (\<lambda>n. Inr True)\<rparr>"

definition sample_record :: NotifData where
  "sample_record =
     \<lparr>device_adr = ''EB:E5'', device_name = ''SP-Case'', characteristic = ppg_red,
      data = [[Num 0, Num 9]], raw_data = [9]\<rparr>"

definition sample_writer :: writer where
  "sample_writer =
     \<lparr>csv = \<lparr>csv_file_path = ''logs/SP-Case_ppg_red.csv'', input_q = [sample_record],
             csv_column_headers = [''index'', ''ppg red''], active = True\<rparr>,
      files = Map.empty, f_open = False, f_closes = 0, writer_logged = [],
      writer_halt_set = False\<rparr>"

definition no_such_folder :: exn where
  "no_such_folder = Raised FileNotFoundError ''No such file or directory''"

text \<open>A consumer whose table holds the logger of a writer that ended when its open failed.\<close>

definition sample_consumer :: Consumer_log2csv where
  "sample_consumer =
     (init_Consumer_log2csv sample_config)
       \<lparr>file_outputs :=
          [''logs/SP-Case_ppg_red.csv'' \<mapsto> csv (csv_handlers (Some no_such_folder) sample_writer)],
        tasks := [''logs/SP-Case_ppg_red.csv'']\<rparr>"

text \<open>
  The sample connection once \<^verbatim>\<open>run\<close> has connected it at clock reading 0, and a loop
  iteration at a given clock reading in which no callback fires.
\<close>

definition sample_connected :: ActiveConnection where
  "sample_connected =
     (snd (connect sample_transport
             (sample_connection\<lparr>con := Some \<lparr>client_address = ''EB:E5'', notifying = [],
                                                 disconnect_calls = 0\<rparr>\<rparr>)))
     \<lparr>initial_connection_time := Some 0\<rparr>"

definition sample_tick :: "int \<Rightarrow> tick" where
  "sample_tick now = \<lparr>halt_is_set = False, clock = now, during_sleep = []\<rparr>"

text \<open>A transport whose connect times out, and a loop iteration that finds halt set.\<close>

definition failing_transport :: transport where
  "failing_transport = sample_transport\<lparr>connect_outcome := Inl (Raised TimeoutError [])\<rparr>"

definition halt_tick :: tick where
  "halt_tick = \<lparr>halt_is_set = True, clock = 1000000000, during_sleep = []\<rparr>"

text \<open>
  A loop iteration during which a notification for \<open>ppg_red\<close> arrives, and an iteration
  of a writer's loop that finds halt set and brings no new record.
\<close>

definition notified_tick :: tick where
  "notified_tick =
     \<lparr>halt_is_set = False, clock = 1000000000,
      during_sleep = [Notification 1000000000 [9] ppg_red]\<rparr>"

text \<open>
  A loop iteration whose health check reads 2.48 s and during whose sleep a notification
  for \<open>ppg_red\<close> arrives at 2.51 s.
\<close>

definition late_notification_tick :: tick where
  "late_notification_tick =
     \<lparr>halt_is_set = False, clock = 2480000000,
      during_sleep = [Notification 2510000000 [9] ppg_red]\<rparr>"

definition csv_halt_tick :: csv_tick where
  "csv_halt_tick = \<lparr>arrivals = [], csv_halt_is_set = True, write_exn = None\<rparr>"

text \<open>
  A normaliser for the scenarios, standing for \<^verbatim>\<open>normalise_adr\<close>: it puts the hexadecimal
  letters in upper case. And the sample configuration with its fixed address written in
  lower case.
\<close>

definition upper_adr :: "string \<Rightarrow> string" where
  "upper_adr a =
     map (\<lambda>c. if c = CHR ''a'' then CHR ''A'' else if c = CHR ''b'' then CHR ''B''
               else if c = CHR ''c'' then CHR ''C'' else if c = CHR ''d'' then CHR ''D''
               else if c = CHR ''e'' then CHR ''E'' else if c = CHR ''f'' then CHR ''F'' else c) a"

definition lower_case_config :: Configuration where
  "lower_case_config = sample_config\<lparr>connect_device_adrs := [''eb:e5'']\<rparr>"








text \<open>The sample writer when its file exists already, with a header and one row.\<close>

definition existing_file_writer :: writer where
  "existing_file_writer =
     sample_writer\<lparr>files := [''logs/SP-Case_ppg_red.csv'' \<mapsto>
                                [[Text ''index'', Text ''ppg red''], [Num 0, Num 4]]]\<rparr>"

section \<open>Properties\<close>

subsection \<open>What the steps of a connection leave unchanged\<close>

lemma emit_simps [simp]:
  "state (emit l m s) = state s" "state_history (emit l m s) = state_history s"
  "did_disconnect (emit l m s) = did_disconnect s" "con (emit l m s) = con s"
  "last_notif (emit l m s) = last_notif s" "config (emit l m s) = config s"
  "initial_connection_time (emit l m s) = initial_connection_time s"
  "name (emit l m s) = name s" "logged (emit l m s) = logged s @ [(l, m)]"
  "output_q (emit l m s) = output_q s" "calls (emit l m s) = calls s"
  by (simp_all add: emit_def calls_def)

lemma do_disconnect_frame:
  "state (snd (do_disconnect tr s)) = state s"
  "state_history (snd (do_disconnect tr s)) = state_history s"
  "last_notif (snd (do_disconnect tr s)) = last_notif s"
  "config (snd (do_disconnect tr s)) = config s"
  "initial_connection_time (snd (do_disconnect tr s)) = initial_connection_time s"
  "name (snd (do_disconnect tr s)) = name s"
  by (simp_all add: do_disconnect_def Let_def split: option.split sum.split)

lemma do_disconnect_None: "con s = None \<Longrightarrow> do_disconnect tr s = (None, s)"
  by (simp add: do_disconnect_def)

lemma do_disconnect_Some:
  assumes "con s = Some c"
  shows "did_disconnect (snd (do_disconnect tr s))"
    and "con (snd (do_disconnect tr s)) = Some (c\<lparr>disconnect_calls := Suc (disconnect_calls c)\<rparr>)"
    and "calls (snd (do_disconnect tr s)) = Suc (calls s)"
  using assms by (simp_all add: do_disconnect_def Let_def calls_def emit_def split: sum.split)

lemma do_disconnect_keeps_flag:
  "did_disconnect s \<Longrightarrow> did_disconnect (snd (do_disconnect tr s))"
  by (simp add: do_disconnect_def Let_def emit_def split: option.split sum.split)

lemma do_disconnect_calls_mono: "calls s \<le> calls (snd (do_disconnect tr s))"
  by (cases "con s") (simp_all add: do_disconnect_None do_disconnect_Some)

lemma do_disconnect_con_None: "con s = None \<longleftrightarrow> con (snd (do_disconnect tr s)) = None"
  by (cases "con s") (simp_all add: do_disconnect_None do_disconnect_Some)

lemma do_disconnect_logged: "set (logged s) \<subseteq> set (logged (snd (do_disconnect tr s)))"
  by (auto simp add: do_disconnect_def Let_def emit_def split: option.split sum.split)

lemma check_chars_preserves:
  assumes d: "\<And>x. f (snd (do_disconnect tr x)) = f x"
      and e: "\<And>l m x. f (emit l m x) = f x"
  shows "f (snd (check_chars tr now chs s)) = f s"
proof (induction chs arbitrary: s)
  case Nil
  show ?case by simp
next
  case (Cons ch chs)
  show ?case
    by (simp add: Cons d e case_prod_beta split: option.split)
qed

lemma check_chars_frame:
  "state (snd (check_chars tr now chs s)) = state s"
  "state_history (snd (check_chars tr now chs s)) = state_history s"
  "last_notif (snd (check_chars tr now chs s)) = last_notif s"
  "config (snd (check_chars tr now chs s)) = config s"
  "initial_connection_time (snd (check_chars tr now chs s)) = initial_connection_time s"
  "name (snd (check_chars tr now chs s)) = name s"
  by (rule check_chars_preserves; simp add: do_disconnect_frame)+

lemma check_chars_increases:
  assumes d: "\<And>x. R x (snd (do_disconnect tr x))"
      and e: "\<And>l m x. R x (emit l m x)"
      and refl: "\<And>x. R x x"
      and trans: "\<And>x y z. R x y \<Longrightarrow> R y z \<Longrightarrow> R x z"
  shows "R s (snd (check_chars tr now chs s))"
proof (induction chs arbitrary: s)
  case Nil
  show ?case by (simp add: refl)
next
  case (Cons ch chs)
  have b: "R s (snd (do_disconnect tr (emit l m s)))" for l m
    using trans [OF e d] .
  have a: "R s (snd (check_chars tr now chs (snd (do_disconnect tr (emit l m s)))))" for l m
    using trans [OF b Cons.IH] .
  show ?case
    by (simp add: case_prod_beta a b Cons.IH refl split: option.split)
qed

lemma check_chars_calls_mono: "calls s \<le> calls (snd (check_chars tr now chs s))"
  by (rule check_chars_increases [where R = "\<lambda>x y. calls x \<le> calls y"])
     (simp_all add: do_disconnect_calls_mono)

lemma check_chars_keeps_flag:
  "did_disconnect s \<Longrightarrow> did_disconnect (snd (check_chars tr now chs s))"
  using check_chars_increases [where R = "\<lambda>x y. did_disconnect x \<longrightarrow> did_disconnect y"
      and tr = tr and s = s and now = now and chs = chs]
  by (simp add: do_disconnect_keeps_flag)

lemma check_chars_logged: "set (logged s) \<subseteq> set (logged (snd (check_chars tr now chs s)))"
  by (rule check_chars_increases [where R = "\<lambda>x y. set (logged x) \<subseteq> set (logged y)"])
     (auto dest: subsetD [OF do_disconnect_logged])

lemma check_chars_con:
  "con (snd (check_chars tr now chs s)) = None \<longleftrightarrow> con s = None"
  using check_chars_increases [where R = "\<lambda>x y. con y = None \<longleftrightarrow> con x = None"
      and tr = tr and s = s and now = now and chs = chs] do_disconnect_con_None
  by simp

lemma notif_callback_frame:
  "state (notif_callback now d ch s) = state s"
  "state_history (notif_callback now d ch s) = state_history s"
  "config (notif_callback now d ch s) = config s"
  "did_disconnect (notif_callback now d ch s) = did_disconnect s"
  "con (notif_callback now d ch s) = con s"
  "u \<noteq> uuid ch \<Longrightarrow> last_notif (notif_callback now d ch s) u = last_notif s u"
  by (simp_all add: notif_callback_def Let_def split: sum.split prod.split option.split)

lemma deliver_frame:
  "state (deliver cb s) = state s"
  "state_history (deliver cb s) = state_history s"
  "config (deliver cb s) = config s"
  "con (deliver cb s) = con s"
  "did_disconnect s \<Longrightarrow> did_disconnect (deliver cb s)"
  by (cases cb; simp add: notif_callback_frame disconnected_callback_def)+

lemma fold_deliver_frame:
  "state (fold deliver cbs s) = state s"
  "state_history (fold deliver cbs s) = state_history s"
  "config (fold deliver cbs s) = config s"
  "con (fold deliver cbs s) = con s"
  "did_disconnect s \<Longrightarrow> did_disconnect (fold deliver cbs s)"
  by (induction cbs arbitrary: s; simp add: deliver_frame)+

subsection \<open>The health check and the end of a run\<close>

lemma never_notified_step:
  "never_notified_expired now x s \<Longrightarrow>
   check_chars tr now (x # chs) s =
     (if fst (do_disconnect tr (s\<lparr>logged := logged s @ [never_notified_warning s x]\<rparr>)) = None
      then check_chars tr now chs
             (snd (do_disconnect tr (s\<lparr>logged := logged s @ [never_notified_warning s x]\<rparr>)))
      else do_disconnect tr (s\<lparr>logged := logged s @ [never_notified_warning s x]\<rparr>))"
  by (auto simp add: never_notified_expired_def never_notified_warning_def emit_def
        split: option.splits prod.splits)

lemma other_step:
  "\<not> never_notified_expired now x s \<Longrightarrow>
   fst (check_chars tr now (x # chs) s) \<noteq> None \<or>
   check_chars tr now (x # chs) s = check_chars tr now chs s"
  by (simp add: never_notified_expired_def split: option.splits prod.splits)

lemma timeout_step:
  "timeout_expired now x s \<Longrightarrow> fst (check_chars tr now (x # chs) s) \<noteq> None"
  by (simp add: timeout_expired_def split: option.splits prod.splits)

lemma expired_after_disconnect:
  "never_notified_expired now ch (snd (do_disconnect tr (s\<lparr>logged := l\<rparr>))) = never_notified_expired now ch s"
  "timeout_expired now ch (snd (do_disconnect tr (s\<lparr>logged := l\<rparr>))) = timeout_expired now ch s"
  by (simp_all add: never_notified_expired_def timeout_expired_def do_disconnect_frame)

lemma never_notified_anywhere:
  assumes "never_notified_expired now ch s" and "ch \<in> set chs" and "con s \<noteq> None"
  shows "fst (check_chars tr now chs s) \<noteq> None \<or> did_disconnect (snd (check_chars tr now chs s))"
  using assms
proof (induction chs arbitrary: s)
  case Nil
  then show ?case by simp
next
  case (Cons x chs)
  let ?s1 = "s\<lparr>logged := logged s @ [never_notified_warning s x]\<rparr>"
  let ?s2 = "snd (do_disconnect tr ?s1)"
  show ?case
  proof (cases "never_notified_expired now x s")
    case True
    obtain c where c: "con ?s1 = Some c" using Cons.prems(3) by auto
    have flag: "did_disconnect ?s2" using do_disconnect_Some(1) [OF c] .
    show ?thesis
    proof (cases "fst (do_disconnect tr ?s1)")
      case None
      then have "check_chars tr now (x # chs) s = check_chars tr now chs ?s2"
        unfolding never_notified_step [OF True] by simp
      then show ?thesis using check_chars_keeps_flag [OF flag] by simp
    next
      case (Some e)
      then show ?thesis unfolding never_notified_step [OF True] by simp
    qed
  next
    case False
    then have "ch \<in> set chs" using Cons.prems by auto
    then have ih: "fst (check_chars tr now chs s) \<noteq> None \<or>
        did_disconnect (snd (check_chars tr now chs s))"
      using Cons.IH Cons.prems by blast
    show ?thesis using other_step [OF False, of tr chs] ih by auto
  qed
qed

lemma timeout_anywhere:
  assumes "timeout_expired now ch s" and "ch \<in> set chs"
  shows "fst (check_chars tr now chs s) \<noteq> None"
  using assms
proof (induction chs arbitrary: s)
  case Nil
  then show ?case by simp
next
  case (Cons x chs)
  let ?s1 = "s\<lparr>logged := logged s @ [never_notified_warning s x]\<rparr>"
  let ?s2 = "snd (do_disconnect tr ?s1)"
  show ?case
  proof (cases "x = ch")
    case True
    then show ?thesis using timeout_step Cons.prems(1) by blast
  next
    case False
    then have mem: "ch \<in> set chs" using Cons.prems by auto
    show ?thesis
    proof (cases "never_notified_expired now x s")
      case True
      have "timeout_expired now ch ?s2" using Cons.prems(1) by (simp add: expired_after_disconnect)
      then have "fst (check_chars tr now chs ?s2) \<noteq> None" using Cons.IH mem by blast
      then show ?thesis
        unfolding never_notified_step [OF True] by simp
    next
      case False
      show ?thesis using other_step [OF False, of tr chs] Cons.IH [OF Cons.prems(1) mem] by auto
    qed
  qed
qed

lemma outer_handlers_simps:
  "state (outer_handlers p s) = DISCONNECTED"
  "state_history (outer_handlers p s) = state_history s @ [DISCONNECTED]"
  "calls (outer_handlers p s) = calls s"
  "did_disconnect s \<Longrightarrow> did_disconnect (outer_handlers p s)"
  "set (logged s) \<subseteq> set (logged (outer_handlers p s))"
  by (auto simp add: outer_handlers_def set_state_def calls_def emit_def split: option.split)

lemma teardown_simps:
  "state (teardown tr p s) = DISCONNECTED"
  "state_history (teardown tr p s) = state_history s @ [DISCONNECTED]"
  "calls s \<le> calls (teardown tr p s)"
  "con s = Some c \<Longrightarrow> calls (teardown tr p s) = Suc (calls s)"
  "con s = Some c \<Longrightarrow> did_disconnect (teardown tr p s)"
  "set (logged s) \<subseteq> set (logged (teardown tr p s))"
proof -
  have t: "teardown tr p s = outer_handlers (fst (inner_finally tr p s)) (snd (do_disconnect tr s))"
    by (simp add: teardown_def inner_finally_def split: prod.split option.split)
  show "state (teardown tr p s) = DISCONNECTED"
    by (simp add: t outer_handlers_simps)
  show "state_history (teardown tr p s) = state_history s @ [DISCONNECTED]"
    by (simp add: t outer_handlers_simps do_disconnect_frame)
  show "calls s \<le> calls (teardown tr p s)"
    by (simp add: t outer_handlers_simps do_disconnect_calls_mono)
  show "con s = Some c \<Longrightarrow> calls (teardown tr p s) = Suc (calls s)"
    by (simp add: t outer_handlers_simps do_disconnect_Some)
  show "con s = Some c \<Longrightarrow> did_disconnect (teardown tr p s)"
    by (simp add: t outer_handlers_simps do_disconnect_Some)
  show "set (logged s) \<subseteq> set (logged (teardown tr p s))"
    unfolding t using do_disconnect_logged outer_handlers_simps(5) by blast
qed


lemma poll_loop_frame:
  "state (snd (poll_loop tr ticks s)) = state s"
  "state_history (snd (poll_loop tr ticks s)) = state_history s"
  "config (snd (poll_loop tr ticks s)) = config s"
  by (induction ticks arbitrary: s;
      simp add: check_for_timeout_def case_prod_beta check_chars_frame fold_deliver_frame
        split: option.split)+

lemma poll_loop_disconnected:
  "did_disconnect s \<Longrightarrow> fst (poll_loop tr (t # ts) s) \<noteq> StillRunning"
  by simp

lemma supervise_exited:
  "fst (poll_loop tr ticks s) \<noteq> StillRunning \<Longrightarrow>
   \<exists>s'. supervise tr ticks s = Finished s' \<and> state s' = DISCONNECTED"
  by (cases "fst (poll_loop tr ticks s)")
     (simp_all add: supervise_def case_prod_beta teardown_simps)

lemma never_notified_loop:
  assumes "never_notified_expired (clock t1) ch s" and "ch \<in> set (characteristics (config s))"
      and "con s \<noteq> None"
  shows "fst (poll_loop tr (t1 # t2 # ts) s) \<noteq> StillRunning"
proof -
  let ?r = "check_chars tr (clock t1) (characteristics (config s)) s"
  have d: "fst ?r \<noteq> None \<or> did_disconnect (snd ?r)"
    using never_notified_anywhere [OF assms] .
  show ?thesis
  proof (cases "fst ?r")
    case None
    then have "did_disconnect (fold deliver (during_sleep t1) (snd ?r))"
      using d by (simp add: fold_deliver_frame)
    then show ?thesis
      using None by (simp add: check_for_timeout_def case_prod_beta)
  next
    case (Some e)
    then show ?thesis by (simp add: check_for_timeout_def case_prod_beta)
  qed
qed

lemma sample_connected_value:
  "sample_connected =
     sample_connection
       \<lparr>state := CONNECTED, state_history := [CONNECTING, CONNECTED],
        con := Some \<lparr>client_address = ''EB:E5'', notifying = [''0001'', ''0002''],
                     disconnect_calls = 0\<rparr>,
        initial_connection_time := Some 0,
        logged := [(INFO, ''Established connection to SP-Case!''),
                   (INFO, ''Enabled notifications for all characteristic for SP-Case!'')]\<rparr>"
  by (simp add: sample_connected_def connect_def sample_transport_def sample_connection_def
        init_ActiveConnection_def sample_config_def ppg_red_def temp_def set_state_def emit_def)


lemma run_sample:
  "run sample_transport 0 ticks sample_connection = supervise sample_transport ticks sample_connected"
  by (simp add: run_def sample_connected_def Let_def case_prod_beta sample_transport_def
        sample_connection_def init_ActiveConnection_def connect_def sample_config_def
        ppg_red_def temp_def)

lemma sample_connected_fields:
  "con sample_connected =
     Some \<lparr>client_address = ''EB:E5'', notifying = [''0001'', ''0002''], disconnect_calls = 0\<rparr>"
  "config sample_connected = sample_config"
  "did_disconnect sample_connected = False"
  "initial_connection_time sample_connected = Some 0"
  "last_notif sample_connected ''0001'' = Some None"
  "name sample_connected = ''SP-Case''"
  "calls sample_connected = 0"
  by (simp_all add: sample_connected_value sample_connection_def init_ActiveConnection_def
        sample_config_def ppg_red_def temp_def calls_def)

lemma sample_grace_check:
  "check_for_timeout sample_transport 12000000000 sample_connected =
     (None,
      sample_connected
        \<lparr>con := Some \<lparr>client_address = ''EB:E5'', notifying = [''0001'', ''0002''],
                      disconnect_calls = 1\<rparr>,
         logged := logged sample_connected @
           [(WARNING, ''SP-Case: Never received a notification for ppg_red, disconnecting...''),
            (WARNING, ''Disconnected from SP-Case.'')],
         did_disconnect := True\<rparr>)"
  by (simp add: check_for_timeout_def sample_connected_fields sample_config_def ppg_red_def
        temp_def has_been_def do_disconnect_def sample_transport_def emit_def)

text \<open>
  Claim C1, as amended. In the health check, for a characteristic with a timeout for which
  no notification was ever received, with an initial grace period configured: when the time
  since the connection was made exceeds timeout plus grace, the branch logs its warning and
  disconnects. After the check \<^verbatim>\<open>did_disconnect\<close> is set, \<^verbatim>\<open>con.disconnect()\<close> has been
  called and the warning is in the log; and when the characteristic is one of the
  configuration's, the run has ended with state \<^verbatim>\<open>DISCONNECTED\<close> by the next iteration
  of the loop.
\<close>

theorem never_notified_forces_teardown:
  assumes "timeout ch = Some t" and "last_notif s (uuid ch) = Some None"
      and "initial_characteristic_timeout (config s) = Some g"
      and "initial_connection_time s = Some t0"
      and "has_been now t0 > t + g" and "con s = Some c"
  shows "did_disconnect (snd (check_chars tr now (ch # chs) s)) \<and>
         calls s < calls (snd (check_chars tr now (ch # chs) s)) \<and>
         (WARNING, name s @ '': Never received a notification for '' @ char_name ch
            @ '', disconnecting...'') \<in> set (logged (snd (check_chars tr now (ch # chs) s))) \<and>
         (ch \<in> set (characteristics (config s)) \<and> clock t1 = now \<longrightarrow>
            (\<exists>s'. supervise tr (t1 # t2 # ts) s = Finished s' \<and> state s' = DISCONNECTED))"
proof -
  have ex: "never_notified_expired now ch s"
    using assms by (simp add: never_notified_expired_def)
  let ?s1 = "s\<lparr>logged := logged s @ [never_notified_warning s ch]\<rparr>"
  let ?s2 = "snd (do_disconnect tr ?s1)"
  let ?r = "snd (check_chars tr now (ch # chs) s)"
  have c1: "con ?s1 = Some c" using assms(6) by simp
  have r: "?r = ?s2 \<or> ?r = snd (check_chars tr now chs ?s2)"
    unfolding never_notified_step [OF ex] by simp
  have f2: "did_disconnect ?s2" using do_disconnect_Some(1) [OF c1] .
  have n2: "calls s < calls ?s2" using do_disconnect_Some(3) [OF c1] by (simp add: calls_def)
  have l2: "never_notified_warning s ch \<in> set (logged ?s2)"
    using do_disconnect_logged [of ?s1 tr] by auto
  have "did_disconnect ?r"
    using r f2 check_chars_keeps_flag [OF f2] by auto
  moreover have "calls s < calls ?r"
    using r n2 check_chars_calls_mono [of ?s2 tr now chs] by auto
  moreover have "never_notified_warning s ch \<in> set (logged ?r)"
    using r l2 check_chars_logged [of ?s2 tr now chs] by auto
  moreover have "\<exists>s'. supervise tr (t1 # t2 # ts) s = Finished s' \<and> state s' = DISCONNECTED"
    if "ch \<in> set (characteristics (config s)) \<and> clock t1 = now"
    using that ex assms(6) by (intro supervise_exited never_notified_loop [where ch = ch]) auto
  ultimately show ?thesis
    by (simp add: never_notified_warning_def)
qed

text \<open>
  The claim as stated (a warning only, no teardown, the loop goes on) fails: 12 s after
  the sample connection was made, with no notification for \<open>ppg_red\<close> (timeout 1.5 s,
  grace 10 s), the health check sets \<^verbatim>\<open>did_disconnect\<close> and calls \<^verbatim>\<open>con.disconnect()\<close>, and
  the run ends with state \<^verbatim>\<open>DISCONNECTED\<close>.
\<close>

theorem never_notified_counterexample:
  "did_disconnect (snd (check_for_timeout sample_transport 12000000000 sample_connected)) \<and>
   calls (snd (check_for_timeout sample_transport 12000000000 sample_connected)) = 1 \<and>
   finished (run sample_transport 0
       [sample_tick 12000000000, sample_tick 12050000000, sample_tick 12100000000]
       sample_connection) \<and>
   state (result (run sample_transport 0
       [sample_tick 12000000000, sample_tick 12050000000, sample_tick 12100000000]
       sample_connection)) = DISCONNECTED"
proof -
  have l: "fst (poll_loop sample_transport
       [sample_tick 12000000000, sample_tick 12050000000, sample_tick 12100000000]
       sample_connected) = Exited (Some (Raised ActiveConnectionException []))"
    by (simp add: sample_tick_def sample_grace_check sample_connected_fields)
  show ?thesis
    using l
    by (simp add: sample_grace_check calls_def run_sample supervise_def case_prod_beta
          teardown_simps)
qed

theorem never_notified_forces_teardown_witness:
  "timeout ppg_red = Some (3 / 2) \<and> last_notif sample_connected (uuid ppg_red) = Some None \<and>
   initial_characteristic_timeout (config sample_connected) = Some 10 \<and>
   initial_connection_time sample_connected = Some 0 \<and>
   has_been 12000000000 0 > 3 / 2 + 10 \<and>
   ppg_red \<in> set (characteristics (config sample_connected)) \<and>
   clock (sample_tick 12000000000) = 12000000000 \<and>
   did_disconnect (snd (check_chars sample_transport 12000000000 [ppg_red, temp] sample_connected)) \<and>
   calls sample_connected <
     calls (snd (check_chars sample_transport 12000000000 [ppg_red, temp] sample_connected)) \<and>
   (\<exists>s'. supervise sample_transport [sample_tick 12000000000, sample_tick 12050000000]
            sample_connected = Finished s' \<and> state s' = DISCONNECTED)"
proof -
  have h: "timeout ppg_red = Some (3 / 2)" "last_notif sample_connected (uuid ppg_red) = Some None"
    "initial_characteristic_timeout (config sample_connected) = Some 10"
    "initial_connection_time sample_connected = Some 0"
    "has_been 12000000000 0 > 3 / 2 + 10"
    by (simp_all add: sample_connected_fields ppg_red_def sample_config_def has_been_def)
  have m: "ppg_red \<in> set (characteristics (config sample_connected))"
    "clock (sample_tick 12000000000) = 12000000000"
    by (simp_all add: sample_connected_fields sample_config_def sample_tick_def)
  show ?thesis
    using never_notified_forces_teardown [OF h sample_connected_fields(1),
        where tr = sample_transport and chs = "[temp]" and ?t1.0 = "sample_tick 12000000000"
          and ?t2.0 = "sample_tick 12050000000" and ts = "[]"] h m
    by simp
qed


subsection \<open>A characteristic that falls silent\<close>

lemma poll_loop_calls_mono: "calls s \<le> calls (snd (poll_loop tr ticks s))"
proof (induction ticks arbitrary: s)
  case Nil
  show ?case by simp
next
  case (Cons t ts)
  let ?s1 = "snd (check_for_timeout tr (clock t) s)"
  have a: "calls s \<le> calls ?s1"
    by (simp add: check_for_timeout_def check_chars_calls_mono)
  have b: "calls (fold deliver (during_sleep t) ?s1) = calls ?s1"
    by (simp add: calls_def fold_deliver_frame)
  have "calls s \<le> calls (snd (poll_loop tr ts (fold deliver (during_sleep t) ?s1)))"
    using a b Cons [of "fold deliver (during_sleep t) ?s1"] by simp
  then show ?case
    using a by (simp add: case_prod_beta split: option.split)
qed

lemma poll_loop_con: "con (snd (poll_loop tr ticks s)) = None \<longleftrightarrow> con s = None"
  by (induction ticks arbitrary: s)
     (simp_all add: case_prod_beta check_for_timeout_def check_chars_con fold_deliver_frame
        split: option.split)

lemma deliver_last_notif:
  "other_uuid u cb \<Longrightarrow> last_notif (deliver cb s) u = last_notif s u"
  by (cases cb) (simp_all add: other_uuid_def notif_callback_frame disconnected_callback_def)

lemma fold_deliver_last_notif:
  "\<forall>cb \<in> set cbs. other_uuid u cb \<Longrightarrow> last_notif (fold deliver cbs s) u = last_notif s u"
  by (induction cbs arbitrary: s) (simp_all add: deliver_last_notif)

lemma timeout_loop:
  assumes "timeout_expired (clock tk) ch s" and "ch \<in> set (characteristics (config s))"
      and "\<forall>p \<in> set pre. \<forall>cb \<in> set (during_sleep p). other_uuid (uuid ch) cb"
  shows "fst (poll_loop tr (pre @ tk # post) s) \<noteq> StillRunning"
  using assms
proof (induction pre arbitrary: s)
  case Nil
  have "fst (check_for_timeout tr (clock tk) s) \<noteq> None"
    unfolding check_for_timeout_def using timeout_anywhere [OF Nil(1) Nil(2)] .
  then show ?case by (auto simp add: case_prod_beta)
next
  case (Cons p pre)
  let ?s1 = "snd (check_for_timeout tr (clock p) s)"
  let ?s2 = "fold deliver (during_sleep p) ?s1"
  have c: "config ?s2 = config s"
    by (simp add: fold_deliver_frame check_for_timeout_def check_chars_frame)
  have l: "last_notif ?s2 (uuid ch) = last_notif s (uuid ch)"
    using Cons.prems(3) by (simp add: fold_deliver_last_notif check_for_timeout_def check_chars_frame)
  have e: "timeout_expired (clock tk) ch ?s2"
    using Cons.prems(1) l by (simp add: timeout_expired_def)
  have "fst (poll_loop tr (pre @ tk # post) ?s2) \<noteq> StillRunning"
    using Cons.IH [OF e] Cons.prems c by simp
  then show ?case
    by (cases "fst (check_for_timeout tr (clock p) s)") (simp_all add: case_prod_beta)
qed

lemma poll_loop_exit_prefix:
  "fst (poll_loop tr xs s) \<noteq> StillRunning \<Longrightarrow> poll_loop tr (xs @ ys) s = poll_loop tr xs s"
proof (induction xs arbitrary: s)
  case Nil
  then show ?case by simp
next
  case (Cons a xs)
  show ?case
  proof (cases "halt_is_set a \<or> did_disconnect s")
    case True
    then show ?thesis by auto
  next
    case False
    obtain e s' where c: "check_for_timeout tr (clock a) s = (e, s')"
      by (cases "check_for_timeout tr (clock a) s") auto
    show ?thesis
    proof (cases e)
      case None
      have "fst (poll_loop tr xs (fold deliver (during_sleep a) s')) \<noteq> StillRunning"
        using Cons.prems False c None by simp
      from Cons.IH [OF this] show ?thesis
        using False c None by simp
    next
      case (Some x)
      then show ?thesis using False c by simp
    qed
  qed
qed

lemma expired_check_ends_run:
  assumes "ch \<in> set (characteristics (config s))" and "timeout ch = Some t"
      and "last_notif s (uuid ch) = Some (Some t0)"
      and "\<forall>p \<in> set pre. \<forall>cb \<in> set (during_sleep p). other_uuid (uuid ch) cb"
      and "has_been (clock tk) t0 > t"
  shows "supervise tr (pre @ tk # post) s = supervise tr (pre @ [tk]) s"
    and "finished (supervise tr (pre @ [tk]) s)"
    and "state (result (supervise tr (pre @ [tk]) s)) = DISCONNECTED"
    and "calls s \<le> calls (result (supervise tr (pre @ [tk]) s))"
    and "con s \<noteq> None \<Longrightarrow> did_disconnect (result (supervise tr (pre @ [tk]) s)) \<and>
           calls s < calls (result (supervise tr (pre @ [tk]) s))"
proof -
  have e: "timeout_expired (clock tk) ch s"
    using assms by (simp add: timeout_expired_def)
  let ?l = "poll_loop tr (pre @ [tk]) s"
  have x: "fst ?l \<noteq> StillRunning"
    using timeout_loop [OF e assms(1) assms(4), where post = "[]"] .
  have "poll_loop tr ((pre @ [tk]) @ post) s = ?l"
    using poll_loop_exit_prefix [OF x] .
  then show "supervise tr (pre @ tk # post) s = supervise tr (pre @ [tk]) s"
    by (simp add: supervise_def)
  obtain p where p: "fst ?l = Exited p" using x by (cases "fst ?l") auto
  have f: "supervise tr (pre @ [tk]) s = Finished (teardown tr p (snd ?l))"
    using p by (simp add: supervise_def case_prod_beta)
  show "finished (supervise tr (pre @ [tk]) s)"
    by (simp add: f)
  show "state (result (supervise tr (pre @ [tk]) s)) = DISCONNECTED"
    by (simp add: f teardown_simps)
  show "calls s \<le> calls (result (supervise tr (pre @ [tk]) s))"
    using poll_loop_calls_mono [of s tr "pre @ [tk]"] teardown_simps(3) [of "snd ?l" tr p]
    by (simp add: f)
  show "did_disconnect (result (supervise tr (pre @ [tk]) s)) \<and>
      calls s < calls (result (supervise tr (pre @ [tk]) s))" if h: "con s \<noteq> None"
  proof -
    obtain c where c: "con (snd ?l) = Some c"
      using h poll_loop_con [of tr "pre @ [tk]" s] by auto
    show ?thesis
      using teardown_simps(4,5) [OF c] poll_loop_calls_mono [of s tr "pre @ [tk]"]
      by (simp add: f)
  qed
qed

lemma notif_callback_last_notif:
  "last_notif (notif_callback now d ch s) (uuid ch) = Some (Some now)"
  by (simp add: notif_callback_def Let_def split: sum.split prod.split option.split)

lemma sample_check_passes:
  assumes "config s = sample_config" and "last_notif s ''0001'' = Some (Some l)"
      and "has_been now l \<le> 3 / 2"
  shows "check_for_timeout tr now s = (None, s)"
  using assms
  by (simp add: check_for_timeout_def sample_config_def ppg_red_def temp_def)

lemma poll_loop_pass:
  "\<not> halt_is_set t \<Longrightarrow> \<not> did_disconnect s \<Longrightarrow> check_for_timeout tr (clock t) s = (None, s) \<Longrightarrow>
   poll_loop tr (t # ts) s = poll_loop tr ts (fold deliver (during_sleep t) s)"
  by simp

lemma first_late_check:
  assumes "ticks \<noteq> []" and "P (hd ticks)" and "\<exists>p \<in> set ticks. \<not> P p"
      and "\<forall>i. Suc i < length ticks \<longrightarrow> clock (ticks ! Suc i) \<le> clock (ticks ! i) + d"
  shows "\<exists>pre tk post. ticks = pre @ tk # post \<and> (\<forall>p \<in> set pre. P p) \<and> \<not> P tk \<and>
           pre \<noteq> [] \<and> clock tk \<le> clock (last pre) + d"
proof -
  define pre where "pre = takeWhile P ticks"
  define rest where "rest = dropWhile P ticks"
  have r: "rest \<noteq> []" using assms(3) by (simp add: rest_def)
  then obtain tk post where tk: "rest = tk # post" by (cases rest) auto
  have "ticks = takeWhile P ticks @ dropWhile P ticks" by simp
  then have s: "ticks = pre @ tk # post"
    unfolding pre_def [symmetric] rest_def [symmetric] tk .
  have n: "\<not> P tk"
    using hd_dropWhile [of P ticks] r tk by (simp add: rest_def)
  have a: "\<forall>p \<in> set pre. P p"
    by (auto simp add: pre_def dest: set_takeWhileD)
  have e: "pre \<noteq> []"
    using assms(1,2) by (cases ticks) (auto simp add: pre_def)
  then obtain i where i: "length pre = Suc i" by (cases pre) auto
  have l: "Suc i < length ticks" by (simp add: s i)
  have x: "ticks ! Suc i = tk"
    using nth_append_length [of pre tk post] by (simp add: s i)
  have y: "ticks ! i = last pre"
    by (simp add: s nth_append i last_conv_nth [OF e])
  have "clock tk \<le> clock (last pre) + d"
    using assms(4) [rule_format, OF l] by (simp add: x y)
  then show ?thesis
    using s n a e by blast
qed

text \<open>
  Claim C5, as amended. Let a characteristic of the configuration have the timeout \<open>t\<close>
  (seconds) and its last notification recorded at the clock reading \<open>t0\<close>; let the first
  health check read a clock not past \<open>t0 + t\<close>, consecutive health checks read clocks at most
  \<open>d\<close> nanoseconds apart, and some health check read a clock past \<open>t0 + t\<close>. If no notification
  for the characteristic arrives in the iterations before the first health check that
  reads a clock past \<open>t0 + t\<close>, then that health check reads a clock at most \<open>d\<close>
  nanoseconds past \<open>t0 + t\<close>, and the run ends at the latest in its iteration, without a
  further sleep or health check: the run over all the iterations is the run over those up
  to this one, it has returned with state \<^verbatim>\<open>DISCONNECTED\<close> and, when a client exists,
  with the disconnect attempted. How long the teardown that follows this health check
  takes is given by the transport.
\<close>

theorem silent_characteristic_torn_down:
  assumes "ch \<in> set (characteristics (config s))" and "timeout ch = Some t"
      and "last_notif s (uuid ch) = Some (Some t0)"
      and "\<forall>p \<in> set (takeWhile (\<lambda>p. has_been (clock p) t0 \<le> t) ticks).
             \<forall>cb \<in> set (during_sleep p). other_uuid (uuid ch) cb"
      and "ticks \<noteq> [] \<and> has_been (clock (hd ticks)) t0 \<le> t"
      and "\<forall>i. Suc i < length ticks \<longrightarrow> clock (ticks ! Suc i) \<le> clock (ticks ! i) + d"
      and "\<exists>p \<in> set ticks. has_been (clock p) t0 > t"
  shows "\<exists>pre tk post. ticks = pre @ tk # post \<and>
           (\<forall>p \<in> set pre. has_been (clock p) t0 \<le> t) \<and>
           t < has_been (clock tk) t0 \<and>
           has_been (clock tk) t0 \<le> t + of_int d / 1000000000 \<and>
           supervise tr ticks s = supervise tr (pre @ [tk]) s \<and>
           finished (supervise tr ticks s) \<and>
           state (result (supervise tr ticks s)) = DISCONNECTED \<and>
           calls s \<le> calls (result (supervise tr ticks s)) \<and>
           (con s \<noteq> None \<longrightarrow>
              did_disconnect (result (supervise tr ticks s)) \<and>
              calls s < calls (result (supervise tr ticks s)))"
proof -
  let ?P = "\<lambda>p. has_been (clock p) t0 \<le> t"
  have l: "\<exists>p \<in> set ticks. \<not> ?P p"
    using assms(7) by (simp add: not_le)
  obtain pre tk post where s: "ticks = pre @ tk # post" and a: "\<forall>p \<in> set pre. ?P p"
      and n: "\<not> ?P tk" and e: "pre \<noteq> []" and c: "clock tk \<le> clock (last pre) + d"
    using first_late_check [of ticks ?P d] assms(5) l assms(6) by blast
  have x: "t < has_been (clock tk) t0" using n by simp
  have "takeWhile ?P ticks = pre"
    using a n by (simp add: s)
  then have q: "\<forall>p \<in> set pre. \<forall>cb \<in> set (during_sleep p). other_uuid (uuid ch) cb"
    using assms(4) by simp
  have "has_been (clock (last pre)) t0 \<le> t"
    using a e last_in_set by blast
  moreover have "has_been (clock tk) t0 \<le> has_been (clock (last pre)) t0 + of_int d / 1000000000"
  proof -
    have "(of_int (clock tk - t0) :: rat) \<le> of_int (clock (last pre) - t0) + of_int d"
      using c by (simp flip: of_int_add)
    then show ?thesis
      by (simp add: has_been_def divide_le_cancel flip: add_divide_distrib)
  qed
  ultimately have b: "has_been (clock tk) t0 \<le> t + of_int d / 1000000000"
    by simp
  note r = expired_check_ends_run [OF assms(1) assms(2) assms(3) q x]
  have u: "supervise tr ticks s = supervise tr (pre @ [tk]) s"
    using r(1) [of tr post] s by simp
  have "ticks = pre @ tk # post \<and>
           (\<forall>p \<in> set pre. has_been (clock p) t0 \<le> t) \<and>
           t < has_been (clock tk) t0 \<and>
           has_been (clock tk) t0 \<le> t + of_int d / 1000000000 \<and>
           supervise tr ticks s = supervise tr (pre @ [tk]) s \<and>
           finished (supervise tr ticks s) \<and>
           state (result (supervise tr ticks s)) = DISCONNECTED \<and>
           calls s \<le> calls (result (supervise tr ticks s)) \<and>
           (con s \<noteq> None \<longrightarrow>
              did_disconnect (result (supervise tr ticks s)) \<and>
              calls s < calls (result (supervise tr ticks s)))"
    unfolding u using s a x b r(2,3,4,5) [of tr] by blast
  then show ?thesis by blast
qed

theorem silent_characteristic_torn_down_witness:
  "ppg_red \<in> set (characteristics (config sample_connected)) \<and>
   timeout ppg_red = Some (3 / 2) \<and>
   last_notif (notif_callback 1000000000 [9] ppg_red sample_connected) (uuid ppg_red) =
     Some (Some 1000000000) \<and>
   other_uuid (uuid ppg_red) (Notification 2000000000 [7] temp) \<and>
   has_been 2000000000 1000000000 \<le> 3 / 2 \<and> has_been 2480000000 1000000000 \<le> 3 / 2 \<and>
   has_been 2530000000 1000000000 > 3 / 2 \<and>
   has_been 2530000000 1000000000 \<le> 3 / 2 + of_int 480000000 / 1000000000 \<and>
   con (notif_callback 1000000000 [9] ppg_red sample_connected) \<noteq> None \<and>
   finished (supervise sample_transport
       [\<lparr>halt_is_set = False, clock = 2000000000,
         during_sleep = [Notification 2000000000 [7] temp]\<rparr>,
        sample_tick 2480000000, sample_tick 2530000000, sample_tick 2580000000]
       (notif_callback 1000000000 [9] ppg_red sample_connected)) \<and>
   state (result (supervise sample_transport
       [\<lparr>halt_is_set = False, clock = 2000000000,
         during_sleep = [Notification 2000000000 [7] temp]\<rparr>,
        sample_tick 2480000000, sample_tick 2530000000, sample_tick 2580000000]
       (notif_callback 1000000000 [9] ppg_red sample_connected))) = DISCONNECTED \<and>
   did_disconnect (result (supervise sample_transport
       [\<lparr>halt_is_set = False, clock = 2000000000,
         during_sleep = [Notification 2000000000 [7] temp]\<rparr>,
        sample_tick 2480000000, sample_tick 2530000000, sample_tick 2580000000]
       (notif_callback 1000000000 [9] ppg_red sample_connected))) \<and>
   calls (notif_callback 1000000000 [9] ppg_red sample_connected) <
     calls (result (supervise sample_transport
       [\<lparr>halt_is_set = False, clock = 2000000000,
         during_sleep = [Notification 2000000000 [7] temp]\<rparr>,
        sample_tick 2480000000, sample_tick 2530000000, sample_tick 2580000000]
       (notif_callback 1000000000 [9] ppg_red sample_connected)))"
proof -
  let ?s = "notif_callback 1000000000 [9] ppg_red sample_connected"
  let ?ticks = "[\<lparr>halt_is_set = False, clock = 2000000000,
         during_sleep = [Notification 2000000000 [7] temp]\<rparr>,
        sample_tick 2480000000, sample_tick 2530000000, sample_tick 2580000000]"
  have a: "ppg_red \<in> set (characteristics (config ?s))"
    by (simp add: notif_callback_frame sample_connected_fields sample_config_def)
  have b: "timeout ppg_red = Some (3 / 2)" by (simp add: ppg_red_def)
  have c: "last_notif ?s (uuid ppg_red) = Some (Some 1000000000)"
    by (simp add: notif_callback_def Let_def split: sum.split prod.split option.split)
  have o: "other_uuid (uuid ppg_red) (Notification 2000000000 [7] temp)"
    by (simp add: other_uuid_def ppg_red_def temp_def)
  have h: "has_been 2000000000 1000000000 \<le> 3 / 2" "has_been 2480000000 1000000000 \<le> 3 / 2"
    "has_been 2530000000 1000000000 > 3 / 2"
    "has_been 2530000000 1000000000 \<le> 3 / 2 + of_int 480000000 / 1000000000"
    by (simp_all add: has_been_def)
  have d: "\<forall>p \<in> set (takeWhile (\<lambda>p. has_been (clock p) 1000000000 \<le> 3 / 2) ?ticks).
             \<forall>cb \<in> set (during_sleep p). other_uuid (uuid ppg_red) cb"
    using o h by (simp add: sample_tick_def)
  have e: "?ticks \<noteq> [] \<and> has_been (clock (hd ?ticks)) 1000000000 \<le> 3 / 2"
    using h by simp
  have g: "\<forall>i. Suc i < length ?ticks \<longrightarrow>
             clock (?ticks ! Suc i) \<le> clock (?ticks ! i) + 480000000"
  proof (intro allI impI)
    fix i assume "Suc i < length ?ticks"
    then have "i = 0 \<or> i = 1 \<or> i = 2" by auto
    then show "clock (?ticks ! Suc i) \<le> clock (?ticks ! i) + 480000000"
      by (auto simp add: sample_tick_def)
  qed
  have k: "\<exists>p \<in> set ?ticks. has_been (clock p) 1000000000 > 3 / 2"
    using h by (simp add: sample_tick_def)
  have f: "con ?s \<noteq> None"
    by (simp add: notif_callback_frame sample_connected_fields)
  have r: "finished (supervise sample_transport ?ticks ?s) \<and>
      state (result (supervise sample_transport ?ticks ?s)) = DISCONNECTED \<and>
      did_disconnect (result (supervise sample_transport ?ticks ?s)) \<and>
      calls ?s < calls (result (supervise sample_transport ?ticks ?s))"
    using silent_characteristic_torn_down [OF a b c d e g k, where tr = sample_transport] f
    by blast
  have m: "ppg_red \<in> set (characteristics (config sample_connected))"
    using a by (simp add: notif_callback_frame)
  show ?thesis
    using r m b c o h f by simp
qed

text \<open>
  The claim as stated (no notification before \<open>t0 + t\<close> is enough) fails. The sample
  connection receives a notification for \<open>ppg_red\<close> (timeout 1.5 s) at 1 s, so that
  \<open>t0 + t\<close> is 2.5 s. None arrives before 2.5 s; one arrives at 2.51 s, during the sleep
  that follows the health check at 2.48 s. The health checks at 2.53 s, 2.58 s, 3 s and 4 s
  pass: at 4 s the run has not returned, the state is \<^verbatim>\<open>CONNECTED\<close> and no disconnect was
  attempted.
\<close>

theorem late_notification_counterexample:
  "timeout ppg_red = Some (3 / 2) \<and>
   last_notif (result (run sample_transport 0 [notified_tick] sample_connection)) (uuid ppg_red) =
     Some (Some 1000000000) \<and>
   \<not> finished (run sample_transport 0
       [notified_tick, late_notification_tick, sample_tick 2530000000, sample_tick 2580000000,
        sample_tick 3000000000, sample_tick 4000000000]
       sample_connection) \<and>
   state (result (run sample_transport 0
       [notified_tick, late_notification_tick, sample_tick 2530000000, sample_tick 2580000000,
        sample_tick 3000000000, sample_tick 4000000000]
       sample_connection)) = CONNECTED \<and>
   \<not> did_disconnect (result (run sample_transport 0
       [notified_tick, late_notification_tick, sample_tick 2530000000, sample_tick 2580000000,
        sample_tick 3000000000, sample_tick 4000000000]
       sample_connection)) \<and>
   calls (result (run sample_transport 0
       [notified_tick, late_notification_tick, sample_tick 2530000000, sample_tick 2580000000,
        sample_tick 3000000000, sample_tick 4000000000]
       sample_connection)) = 0"
proof -
  let ?s1 = "notif_callback 1000000000 [9] ppg_red sample_connected"
  let ?s2 = "notif_callback 2510000000 [9] ppg_red ?s1"
  have u: "uuid ppg_red = ''0001''" by (simp add: ppg_red_def)
  have c0: "check_for_timeout sample_transport 1000000000 sample_connected = (None, sample_connected)"
    by (simp add: check_for_timeout_def sample_connected_fields sample_config_def ppg_red_def
          temp_def has_been_def)
  have f1: "config ?s1 = sample_config" "\<not> did_disconnect ?s1"
    "last_notif ?s1 ''0001'' = Some (Some 1000000000)"
    using notif_callback_last_notif [of 1000000000 "[9]" ppg_red sample_connected]
    by (simp_all add: notif_callback_frame sample_connected_fields u)
  have f2: "config ?s2 = sample_config" "\<not> did_disconnect ?s2"
    "last_notif ?s2 ''0001'' = Some (Some 2510000000)"
    using notif_callback_last_notif [of 2510000000 "[9]" ppg_red ?s1]
    by (simp_all add: notif_callback_frame sample_connected_fields u)
  have c1: "check_for_timeout sample_transport 2480000000 ?s1 = (None, ?s1)"
    by (rule sample_check_passes [OF f1(1) f1(3)]) (simp add: has_been_def)
  have c2: "check_for_timeout sample_transport now ?s2 = (None, ?s2)"
    if "has_been now 2510000000 \<le> 3 / 2" for now
    by (rule sample_check_passes [OF f2(1) f2(3) that])
  have h: "has_been 2530000000 2510000000 \<le> 3 / 2" "has_been 2580000000 2510000000 \<le> 3 / 2"
    "has_been 3000000000 2510000000 \<le> 3 / 2" "has_been 4000000000 2510000000 \<le> 3 / 2"
    by (simp_all add: has_been_def)
  have n: "\<not> did_disconnect sample_connected" by (simp add: sample_connected_fields)
  have d1: "fold deliver (during_sleep notified_tick) sample_connected = ?s1"
    by (simp add: notified_tick_def)
  have d2: "fold deliver (during_sleep late_notification_tick) ?s1 = ?s2"
    by (simp add: late_notification_tick_def)
  have d3: "fold deliver (during_sleep (sample_tick now)) x = x" for now x
    by (simp add: sample_tick_def)
  have k: "clock notified_tick = 1000000000" "\<not> halt_is_set notified_tick"
    "clock late_notification_tick = 2480000000" "\<not> halt_is_set late_notification_tick"
    "clock (sample_tick now) = now" "\<not> halt_is_set (sample_tick now)" for now
    by (simp_all add: notified_tick_def late_notification_tick_def sample_tick_def)
  have p0: "poll_loop sample_transport (notified_tick # ts) sample_connected =
      poll_loop sample_transport ts ?s1" for ts
    using poll_loop_pass [OF k(2) n, of sample_transport ts] c0 by (simp add: k d1)
  have p1: "poll_loop sample_transport (late_notification_tick # ts) ?s1 =
      poll_loop sample_transport ts ?s2" for ts
    using poll_loop_pass [OF k(4) f1(2), of sample_transport ts] c1 by (simp add: k d2)
  have p2: "poll_loop sample_transport (sample_tick now # ts) ?s2 =
      poll_loop sample_transport ts ?s2" if "has_been now 2510000000 \<le> 3 / 2" for now ts
    using poll_loop_pass [OF k(6) f2(2), of sample_transport now ts] c2 [OF that]
    by (simp add: k d3)
  have l1: "poll_loop sample_transport [notified_tick] sample_connected = (StillRunning, ?s1)"
    unfolding p0 by simp
  have l2: "poll_loop sample_transport
       [notified_tick, late_notification_tick, sample_tick 2530000000, sample_tick 2580000000,
        sample_tick 3000000000, sample_tick 4000000000] sample_connected = (StillRunning, ?s2)"
    unfolding p0 p1 p2 [OF h(1)] p2 [OF h(2)] p2 [OF h(3)] p2 [OF h(4)] by simp
  have r1: "run sample_transport 0 [notified_tick] sample_connection = Running ?s1"
    unfolding run_sample supervise_def l1 by simp
  have r2: "run sample_transport 0
       [notified_tick, late_notification_tick, sample_tick 2530000000, sample_tick 2580000000,
        sample_tick 3000000000, sample_tick 4000000000] sample_connection = Running ?s2"
    unfolding run_sample supervise_def l2 by simp
  have "state sample_connected = CONNECTED"
    by (simp add: sample_connected_value)
  then have r: "state ?s2 = CONNECTED" "calls ?s2 = 0"
    using sample_connected_fields(7)
    by (simp_all add: notif_callback_frame calls_def)
  have t: "timeout ppg_red = Some (3 / 2)" by (simp add: ppg_red_def)
  show ?thesis
    unfolding r1 r2 u using f1(3) f2(2) r t by simp
qed

subsection \<open>The order of the connection states\<close>

lemma start_notify_all_NoneD:
  "start_notify_all tr chs c = (None, c') \<Longrightarrow> ch \<in> set chs \<Longrightarrow>
   start_notify_outcome tr (uuid ch) = None"
  by (induction chs arbitrary: c) (auto split: option.splits)

lemma connect_ok:
  assumes "fst (connect tr s) = None"
  shows "state (snd (connect tr s)) = CONNECTED"
    and "state_history (snd (connect tr s)) = state_history s @ [CONNECTED]"
    and "did_disconnect (snd (connect tr s)) = did_disconnect s"
    and "connect_outcome tr = Inr True"
    and "\<forall>ch \<in> set (characteristics (config s)). start_notify_outcome tr (uuid ch) = None"
  using assms
  by (auto simp add: connect_def set_state_def Let_def dest: start_notify_all_NoneD
        split: option.splits sum.splits prod.splits if_splits)

lemma connect_failed:
  assumes "fst (connect tr s) \<noteq> None"
  shows "state (snd (connect tr s)) = state s"
    and "state_history (snd (connect tr s)) = state_history s"
  using assms
  by (auto simp add: connect_def set_state_def Let_def
        split: option.splits sum.splits prod.splits if_splits)

lemma poll_loop_halt:
  "\<exists>t \<in> set ticks. halt_is_set t \<Longrightarrow> fst (poll_loop tr ticks s) \<noteq> StillRunning"
  by (induction ticks arbitrary: s) (auto simp add: case_prod_beta split: option.splits)

lemma supervise_history:
  "finished (supervise tr ticks s) \<Longrightarrow>
     state (result (supervise tr ticks s)) = DISCONNECTED \<and>
     state_history (result (supervise tr ticks s)) = state_history s @ [DISCONNECTED]"
  "\<not> finished (supervise tr ticks s) \<Longrightarrow>
     state (result (supervise tr ticks s)) = state s \<and>
     state_history (result (supervise tr ticks s)) = state_history s"
  "\<exists>t \<in> set ticks. halt_is_set t \<Longrightarrow> finished (supervise tr ticks s)"
  using poll_loop_halt [of ticks tr s]
  by (cases "fst (poll_loop tr ticks s)";
      simp add: supervise_def case_prod_beta teardown_simps poll_loop_frame)+

lemma sample_connected_history:
  "state_history sample_connected = [CONNECTING, CONNECTED]" "state sample_connected = CONNECTED"
  by (simp_all add: sample_connected_value)

text \<open>
  Claim C6. For a connection as its constructor makes it, the values assigned to
  \<^verbatim>\<open>self.state\<close> over a run are \<^verbatim>\<open>CONNECTING\<close>, then possibly \<^verbatim>\<open>CONNECTED\<close>, then
  \<^verbatim>\<open>DISCONNECTED\<close>: a run that has returned ends in \<^verbatim>\<open>DISCONNECTED\<close> with one of
  these two histories; a run whose loop is still going is in \<^verbatim>\<open>CONNECTED\<close>; when the
  client cannot be made, the link fails or a subscription fails, the run returns and
  \<^verbatim>\<open>CONNECTED\<close> was never assigned; and a run returns as soon as an iteration finds the
  halt signal set.
\<close>

theorem state_order:
  "(finished (run tr tc ticks (init_ActiveConnection a n cfg out)) \<longrightarrow>
      state (result (run tr tc ticks (init_ActiveConnection a n cfg out))) = DISCONNECTED \<and>
      (state_history (result (run tr tc ticks (init_ActiveConnection a n cfg out))) =
         [CONNECTING, DISCONNECTED] \<or>
       state_history (result (run tr tc ticks (init_ActiveConnection a n cfg out))) =
         [CONNECTING, CONNECTED, DISCONNECTED])) \<and>
   (\<not> finished (run tr tc ticks (init_ActiveConnection a n cfg out)) \<longrightarrow>
      state (result (run tr tc ticks (init_ActiveConnection a n cfg out))) = CONNECTED \<and>
      state_history (result (run tr tc ticks (init_ActiveConnection a n cfg out))) =
        [CONNECTING, CONNECTED]) \<and>
   (client_ctor tr \<noteq> None \<or> connect_outcome tr \<noteq> Inr True \<or>
    (\<exists>ch \<in> set (characteristics cfg). start_notify_outcome tr (uuid ch) \<noteq> None) \<longrightarrow>
      finished (run tr tc ticks (init_ActiveConnection a n cfg out)) \<and>
      state_history (result (run tr tc ticks (init_ActiveConnection a n cfg out))) =
        [CONNECTING, DISCONNECTED]) \<and>
   ((\<exists>t \<in> set ticks. halt_is_set t) \<longrightarrow>
      finished (run tr tc ticks (init_ActiveConnection a n cfg out)))"
proof -
  define s0 where "s0 = init_ActiveConnection a n cfg out"
  define s1 where
    "s1 = s0\<lparr>con := Some \<lparr>client_address = adr s0, notifying = [], disconnect_calls = 0\<rparr>\<rparr>"
  define r where "r = run tr tc ticks s0"
  have i: "state s1 = CONNECTING" "state_history s1 = [CONNECTING]" "\<not> did_disconnect s1"
    "state_history s0 = [CONNECTING]" "config s1 = cfg"
    by (simp_all add: s0_def s1_def init_ActiveConnection_def)
  have goal: "(finished r \<longrightarrow> state (result r) = DISCONNECTED \<and>
        (state_history (result r) = [CONNECTING, DISCONNECTED] \<or>
         state_history (result r) = [CONNECTING, CONNECTED, DISCONNECTED])) \<and>
      (\<not> finished r \<longrightarrow> state (result r) = CONNECTED \<and>
         state_history (result r) = [CONNECTING, CONNECTED]) \<and>
      (client_ctor tr \<noteq> None \<or> connect_outcome tr \<noteq> Inr True \<or>
       (\<exists>ch \<in> set (characteristics cfg). start_notify_outcome tr (uuid ch) \<noteq> None) \<longrightarrow>
         finished r \<and> state_history (result r) = [CONNECTING, DISCONNECTED]) \<and>
      ((\<exists>t \<in> set ticks. halt_is_set t) \<longrightarrow> finished r)"
  proof (cases "client_ctor tr")
    case (Some e)
    then have "r = Finished (outer_handlers (Some e) s0)"
      by (simp add: r_def run_def)
    then show ?thesis
      by (simp add: outer_handlers_simps i)
  next
    case None
    show ?thesis
    proof (cases "fst (connect tr s1)")
      case (Some e)
      then have "r = Finished (teardown tr (Some e) (snd (connect tr s1)))"
        using None i(3) by (simp add: r_def run_def s1_def Let_def case_prod_beta)
      then show ?thesis
        using connect_failed [of tr s1] Some by (simp add: teardown_simps i)
    next
      case ok: None
      let ?s2 = "(snd (connect tr s1))\<lparr>initial_connection_time := Some tc\<rparr>"
      have r: "r = supervise tr ticks ?s2"
        using None ok i(3) by (simp add: r_def run_def s1_def Let_def case_prod_beta)
      have h: "state ?s2 = CONNECTED" "state_history ?s2 = [CONNECTING, CONNECTED]"
        using connect_ok(1,2) [OF ok] by (simp_all add: i)
      have nf: "\<not> (client_ctor tr \<noteq> None \<or> connect_outcome tr \<noteq> Inr True \<or>
          (\<exists>ch \<in> set (characteristics cfg). start_notify_outcome tr (uuid ch) \<noteq> None))"
        using None connect_ok(4,5) [OF ok] by (simp add: i)
      show ?thesis
        using supervise_history [where tr = tr and ticks = ticks and s = ?s2] nf unfolding r h by auto
    qed
  qed
  show ?thesis
    using goal unfolding r_def s0_def .
qed

theorem state_order_witness:
  "halt_is_set halt_tick \<and>
   finished (run sample_transport 0 [sample_tick 500000000, halt_tick] sample_connection) \<and>
   state (result (run sample_transport 0 [sample_tick 500000000, halt_tick] sample_connection)) =
     DISCONNECTED \<and>
   state_history (result (run sample_transport 0 [sample_tick 500000000, halt_tick]
     sample_connection)) = [CONNECTING, CONNECTED, DISCONNECTED] \<and>
   \<not> finished (run sample_transport 0 [sample_tick 500000000] sample_connection) \<and>
   state (result (run sample_transport 0 [sample_tick 500000000] sample_connection)) = CONNECTED \<and>
   state_history (result (run sample_transport 0 [sample_tick 500000000] sample_connection)) =
     [CONNECTING, CONNECTED] \<and>
   connect_outcome failing_transport \<noteq> Inr True \<and>
   finished (run failing_transport 0 [sample_tick 500000000] sample_connection) \<and>
   state_history (result (run failing_transport 0 [sample_tick 500000000] sample_connection)) =
     [CONNECTING, DISCONNECTED]"
proof -
  have h: "halt_is_set halt_tick" by (simp add: halt_tick_def)
  have e: "\<exists>t \<in> set [sample_tick 500000000, halt_tick]. halt_is_set t" using h by simp
  have c: "connect_outcome failing_transport \<noteq> Inr True"
    by (simp add: failing_transport_def)
  have k: "check_for_timeout sample_transport 500000000 sample_connected = (None, sample_connected)"
    by (simp add: check_for_timeout_def sample_connected_fields sample_config_def ppg_red_def
          temp_def has_been_def)
  have n: "\<not> finished (run sample_transport 0 [sample_tick 500000000] sample_connection)"
    by (simp add: run_sample supervise_def sample_tick_def sample_connected_fields k)
  have m: "state_history (result (run sample_transport 0 [sample_tick 500000000, halt_tick]
     sample_connection)) = [CONNECTING, CONNECTED, DISCONNECTED]"
    by (simp add: run_sample supervise_def sample_tick_def halt_tick_def sample_connected_fields k
          teardown_simps sample_connected_history)
  show ?thesis
    using state_order [where tr = sample_transport and tc = 0
        and ticks = "[sample_tick 500000000, halt_tick]" and a = "''EB:E5''" and n = "''SP-Case''"
        and cfg = sample_config and out = "\<lparr>maxsize = 1, items = []\<rparr>",
        folded sample_connection_def]
      state_order [where tr = sample_transport and tc = 0
        and ticks = "[sample_tick 500000000]" and a = "''EB:E5''" and n = "''SP-Case''"
        and cfg = sample_config and out = "\<lparr>maxsize = 1, items = []\<rparr>",
        folded sample_connection_def]
      state_order [where tr = failing_transport and tc = 0
        and ticks = "[sample_tick 500000000]" and a = "''EB:E5''" and n = "''SP-Case''"
        and cfg = sample_config and out = "\<lparr>maxsize = 1, items = []\<rparr>",
        folded sample_connection_def]
      h e c n m
    by simp
qed

subsection \<open>How often the transport is asked to disconnect\<close>

lemma other_step_cases:
  assumes "\<not> never_notified_expired now x s"
  shows "check_chars tr now (x # chs) s = check_chars tr now chs s \<or>
   snd (check_chars tr now (x # chs) s) =
     snd (do_disconnect tr (s\<lparr>logged := logged s @ [timeout_warning s x]\<rparr>)) \<or>
   (\<exists>k m. k \<noteq> ActiveConnectionException \<and> fst (check_chars tr now (x # chs) s) = Some (Raised k m))"
proof (cases "timeout x")
  case None
  then show ?thesis by simp
next
  case t: (Some t)
  show ?thesis
  proof (cases "last_notif s (uuid x)")
    case None
    then show ?thesis using t by simp
  next
    case l: (Some ln)
    show ?thesis
    proof (cases ln)
      case None
      show ?thesis
      proof (cases "initial_characteristic_timeout (config s)")
        case g: None
        then show ?thesis using t l None by simp
      next
        case g: (Some g)
        show ?thesis
        proof (cases "initial_connection_time s")
          case None
          then show ?thesis using t l \<open>ln = None\<close> g by simp
        next
          case (Some t0)
          then have "\<not> has_been now t0 > t + g"
            using assms t l \<open>ln = None\<close> g by (simp add: never_notified_expired_def)
          then show ?thesis using t l \<open>ln = None\<close> g Some by simp
        qed
      qed
    next
      case (Some lst)
      show ?thesis
      proof (cases "has_been now lst > t")
        case True
        then have "snd (check_chars tr now (x # chs) s) =
            snd (do_disconnect tr (s\<lparr>logged := logged s @ [timeout_warning s x]\<rparr>))"
          using t l Some by (simp add: timeout_warning_def emit_def case_prod_beta split: option.split)
        then show ?thesis by blast
      next
        case False
        then show ?thesis using t l Some by simp
      qed
    qed
  qed
qed

lemma check_raises_calls:
  assumes "con s \<noteq> None" and "fst (check_chars tr now chs s) = Some e"
      and "isinstance e ActiveConnectionException"
  shows "calls s < calls (snd (check_chars tr now chs s))"
  using assms
proof (induction chs arbitrary: s)
  case Nil
  then show ?case by simp
next
  case (Cons x chs)
  obtain c where c: "con s = Some c" using Cons.prems(1) by auto
  have step: "calls (snd (do_disconnect tr (s\<lparr>logged := l\<rparr>))) = Suc (calls s)" for l
    using do_disconnect_Some(3) [of "s\<lparr>logged := l\<rparr>" c tr] c by (simp add: calls_def)
  show ?case
  proof (cases "never_notified_expired now x s")
    case True
    let ?s1 = "s\<lparr>logged := logged s @ [never_notified_warning s x]\<rparr>"
    let ?s2 = "snd (do_disconnect tr ?s1)"
    have c2: "con ?s2 \<noteq> None"
      using do_disconnect_Some(2) [of ?s1 c tr] c by simp
    show ?thesis
    proof (cases "fst (do_disconnect tr ?s1)")
      case None
      then have eq: "check_chars tr now (x # chs) s = check_chars tr now chs ?s2"
        unfolding never_notified_step [OF True] by simp
      have "calls ?s2 < calls (snd (check_chars tr now chs ?s2))"
        using Cons.IH [OF c2] Cons.prems(2,3) unfolding eq by simp
      then show ?thesis unfolding eq using step [of "logged s @ [never_notified_warning s x]"] by simp
    next
      case (Some e')
      then have "snd (check_chars tr now (x # chs) s) = ?s2"
        unfolding never_notified_step [OF True] by simp
      then show ?thesis using step [of "logged s @ [never_notified_warning s x]"] by simp
    qed
  next
    case False
    from other_step_cases [OF False, of tr chs]
    consider (skip) "check_chars tr now (x # chs) s = check_chars tr now chs s"
      | (disc) "snd (check_chars tr now (x # chs) s) =
          snd (do_disconnect tr (s\<lparr>logged := logged s @ [timeout_warning s x]\<rparr>))"
      | (other) k m where "k \<noteq> ActiveConnectionException"
          "fst (check_chars tr now (x # chs) s) = Some (Raised k m)"
      by blast
    then show ?thesis
    proof cases
      case skip
      then show ?thesis using Cons.IH [OF Cons.prems(1)] Cons.prems(2,3) by simp
    next
      case disc
      then show ?thesis using step [of "logged s @ [timeout_warning s x]"] by simp
    next
      case other
      then show ?thesis using Cons.prems(2,3) by (auto simp del: check_chars.simps)
    qed
  qed
qed

lemma write_rows_handle [simp]:
  "f_open (write_rows rows w) = f_open w" "f_closes (write_rows rows w) = f_closes w"
  "csv (write_rows rows w) = csv w" "writer_logged (write_rows rows w) = writer_logged w"
  "writer_halt_set (write_rows rows w) = writer_halt_set w"
  by (simp_all add: write_rows_def)

lemma csv_loop_handle:
  "f_open (snd (csv_loop ticks w)) = f_open w"
  "f_closes (snd (csv_loop ticks w)) = f_closes w"
  by (induction ticks arbitrary: w; simp add: Let_def split: list.split option.split)+

lemma csv_open_handle:
  "f_closes (snd (csv_open oe he w)) = f_closes w"
  "\<not> f_open w \<Longrightarrow> f_open (snd (csv_open oe he w)) = (oe = None)"
  by (simp_all add: csv_open_def write_row_def Let_def split: option.split)

lemma csv_handlers_closes:
  "f_closes (csv_handlers p w) = (if f_open w then Suc (f_closes w) else f_closes w)"
  by (simp add: csv_handlers_def Let_def split: option.split)

lemma csv_run_closes:
  assumes "\<not> f_open w" and "csv_run oe he ticks w = Finished w'"
  shows "f_closes w' = f_closes w + (if oe = None then 1 else 0)"
proof -
  let ?w1 = "snd (csv_open oe he w)"
  let ?w2 = "snd (csv_loop ticks ?w1)"
  have "\<exists>p. w' = csv_handlers p ?w1 \<or> w' = csv_handlers p ?w2"
    using assms(2)
    by (auto simp add: csv_run_def split: prod.splits option.splits loop_result.splits)
  then show ?thesis
    using csv_open_handle [where oe = oe and he = he and w = w] assms(1)
    by (auto simp add: csv_handlers_closes csv_loop_handle)
qed

lemma finished_result: "finished r \<Longrightarrow> r = Finished (result r)"
  by (cases r) simp_all

lemma sample_notified:
  "fold deliver (during_sleep notified_tick) sample_connected =
     sample_connected
       \<lparr>last_notif := (last_notif sample_connected)(''0001'' \<mapsto> Some 1000000000),
        output_q := \<lparr>maxsize = 1, items = [sample_record]\<rparr>\<rparr>"
  by (simp add: notified_tick_def notif_callback_def sample_connected_value sample_connection_def
        init_ActiveConnection_def ppg_red_def sample_decoder_def put_nowait_def full_def
        sample_record_def)

lemma sample_quiet_check:
  "now \<le> 11500000000 \<Longrightarrow>
   check_for_timeout sample_transport now sample_connected = (None, sample_connected)"
  by (simp add: check_for_timeout_def sample_connected_fields sample_config_def ppg_red_def
        temp_def has_been_def)

lemma sample_notified_fields:
  "con (fold deliver (during_sleep notified_tick) sample_connected) = con sample_connected"
  "config (fold deliver (during_sleep notified_tick) sample_connected) = sample_config"
  "did_disconnect (fold deliver (during_sleep notified_tick) sample_connected) = False"
  "last_notif (fold deliver (during_sleep notified_tick) sample_connected) ''0001'' =
     Some (Some 1000000000)"
  "name (fold deliver (during_sleep notified_tick) sample_connected) = ''SP-Case''"
  "logged (fold deliver (during_sleep notified_tick) sample_connected) = logged sample_connected"
  by (simp_all add: sample_notified sample_connected_fields)

lemma sample_notified_checks:
  "check_for_timeout sample_transport 2000000000
     (fold deliver (during_sleep notified_tick) sample_connected) =
   (None, fold deliver (during_sleep notified_tick) sample_connected)"
  "fst (check_for_timeout sample_transport 3000000000
     (fold deliver (during_sleep notified_tick) sample_connected)) =
   Some (Raised ActiveConnectionException [])"
  "calls (snd (check_for_timeout sample_transport 3000000000
     (fold deliver (during_sleep notified_tick) sample_connected))) = 1"
  "logged (snd (check_for_timeout sample_transport 3000000000
     (fold deliver (during_sleep notified_tick) sample_connected))) =
   logged sample_connected @
     [(WARNING, ''SP-Case: Timeout for characteristic ppg_red expired, disconnecting..''),
      (WARNING, ''Disconnected from SP-Case.'')]"
  "con (snd (check_for_timeout sample_transport 3000000000
     (fold deliver (during_sleep notified_tick) sample_connected))) =
   Some \<lparr>client_address = ''EB:E5'', notifying = [''0001'', ''0002''], disconnect_calls = 1\<rparr>"
  "name (snd (check_for_timeout sample_transport 3000000000
     (fold deliver (during_sleep notified_tick) sample_connected))) = ''SP-Case''"
  by (simp_all add: check_for_timeout_def sample_notified_fields sample_connected_fields
        sample_config_def ppg_red_def temp_def has_been_def do_disconnect_def
        sample_transport_def emit_def calls_def)

lemma sample_connected_logged:
  "logged sample_connected =
     [(INFO, ''Established connection to SP-Case!''),
      (INFO, ''Enabled notifications for all characteristic for SP-Case!'')]"
  by (simp add: sample_connected_value)

lemma sample_do_disconnect:
  "con s = Some c \<Longrightarrow>
   do_disconnect sample_transport s =
     (None,
      s\<lparr>con := Some (c\<lparr>disconnect_calls := Suc (disconnect_calls c)\<rparr>),
        logged := logged s @ [(WARNING, ''Disconnected from '' @ name s @ ''.'')],
        did_disconnect := True\<rparr>)"
  by (simp add: do_disconnect_def sample_transport_def emit_def)

lemma sample_csv_run:
  "finished (csv_run None None [csv_halt_tick, csv_halt_tick] sample_writer)"
  by (simp add: csv_run_def csv_open_def sample_writer_def csv_halt_tick_def write_row_def
        write_rows_def Let_def)

text \<open>
  Claim C2, as amended. \<^verbatim>\<open>_do_disconnect\<close> has no guard against repetition: on a connection
  with a client every call calls \<^verbatim>\<open>con.disconnect()\<close> again, so two calls make two
  attempts; the second call leaves \<^verbatim>\<open>did_disconnect\<close> and \<^verbatim>\<open>state\<close> as the first left
  them. On the characteristic-timeout path (the health check raises
  \<^verbatim>\<open>ActiveConnectionException\<close>) \<^verbatim>\<open>con.disconnect()\<close> has been called at least twice when
  the cleanup of \<^verbatim>\<open>run\<close> is over: by the health check and again by the cleanup. A
  per-file writer that returns has closed its file exactly once when the open succeeded,
  and never when it failed.
\<close>

theorem disconnect_not_guarded:
  "(con s = Some c \<longrightarrow>
      calls (snd (do_disconnect tr s)) = Suc (calls s) \<and>
      calls (snd (do_disconnect tr (snd (do_disconnect tr s)))) = Suc (Suc (calls s)) \<and>
      did_disconnect (snd (do_disconnect tr s)) \<and>
      did_disconnect (snd (do_disconnect tr (snd (do_disconnect tr s)))) \<and>
      state (snd (do_disconnect tr (snd (do_disconnect tr s)))) = state (snd (do_disconnect tr s))) \<and>
   (con s = Some c \<and> check_for_timeout tr now s = (Some e, s1) \<and>
    isinstance e ActiveConnectionException \<longrightarrow>
      calls s + 2 \<le> calls (teardown tr (Some e) s1)) \<and>
   (\<not> f_open w \<and> csv_run open_exn header_exn ticks w = Finished w' \<longrightarrow>
      f_closes w' = f_closes w + (if open_exn = None then 1 else 0))"
proof (intro conjI impI)
  assume c: "con s = Some c"
  let ?s1 = "snd (do_disconnect tr s)"
  have c1: "con ?s1 = Some (c\<lparr>disconnect_calls := Suc (disconnect_calls c)\<rparr>)"
    using do_disconnect_Some(2) [OF c] .
  show "calls ?s1 = Suc (calls s)" using do_disconnect_Some(3) [OF c] .
  show "calls (snd (do_disconnect tr ?s1)) = Suc (Suc (calls s))"
    using do_disconnect_Some(3) [OF c1] do_disconnect_Some(3) [OF c] by simp
  show "did_disconnect ?s1" using do_disconnect_Some(1) [OF c] .
  show "did_disconnect (snd (do_disconnect tr ?s1))" using do_disconnect_Some(1) [OF c1] .
  show "state (snd (do_disconnect tr ?s1)) = state ?s1" by (simp add: do_disconnect_frame)
next
  assume a: "con s = Some c \<and> check_for_timeout tr now s = (Some e, s1) \<and>
    isinstance e ActiveConnectionException"
  have r: "fst (check_chars tr now (characteristics (config s)) s) = Some e"
    "snd (check_chars tr now (characteristics (config s)) s) = s1"
    using a by (simp_all add: check_for_timeout_def)
  have n: "calls s < calls s1"
    using check_raises_calls [of s tr now "characteristics (config s)" e] a r by simp
  have "con s1 \<noteq> None"
    using check_chars_con [of tr now "characteristics (config s)" s] a r by simp
  then obtain c1 where "con s1 = Some c1" by auto
  then have "calls (teardown tr (Some e) s1) = Suc (calls s1)"
    by (rule teardown_simps(4))
  then show "calls s + 2 \<le> calls (teardown tr (Some e) s1)" using n by simp
next
  assume "\<not> f_open w \<and> csv_run open_exn header_exn ticks w = Finished w'"
  then show "f_closes w' = f_closes w + (if open_exn = None then 1 else 0)"
    using csv_run_closes by blast
qed

theorem disconnect_not_guarded_witness:
  "con (fold deliver (during_sleep notified_tick) sample_connected) =
     Some \<lparr>client_address = ''EB:E5'', notifying = [''0001'', ''0002''], disconnect_calls = 0\<rparr> \<and>
   fst (check_for_timeout sample_transport 3000000000
          (fold deliver (during_sleep notified_tick) sample_connected)) =
     Some (Raised ActiveConnectionException []) \<and>
   isinstance (Raised ActiveConnectionException []) ActiveConnectionException \<and>
   calls (fold deliver (during_sleep notified_tick) sample_connected) + 2 \<le>
     calls (teardown sample_transport (Some (Raised ActiveConnectionException []))
              (snd (check_for_timeout sample_transport 3000000000
                      (fold deliver (during_sleep notified_tick) sample_connected)))) \<and>
   calls (snd (do_disconnect sample_transport
                 (snd (do_disconnect sample_transport
                         (fold deliver (during_sleep notified_tick) sample_connected))))) =
     Suc (Suc (calls (fold deliver (during_sleep notified_tick) sample_connected))) \<and>
   \<not> f_open sample_writer \<and>
   finished (csv_run None None [csv_halt_tick, csv_halt_tick] sample_writer) \<and>
   f_closes (result (csv_run None None [csv_halt_tick, csv_halt_tick] sample_writer)) = 1"
proof -
  let ?s = "fold deliver (during_sleep notified_tick) sample_connected"
  have c: "con ?s =
     Some \<lparr>client_address = ''EB:E5'', notifying = [''0001'', ''0002''], disconnect_calls = 0\<rparr>"
    by (simp add: sample_notified_fields sample_connected_fields)
  have k: "check_for_timeout sample_transport 3000000000 ?s =
      (Some (Raised ActiveConnectionException []),
       snd (check_for_timeout sample_transport 3000000000 ?s))"
    using sample_notified_checks(2) by (metis prod.collapse)
  have i: "isinstance (Raised ActiveConnectionException []) ActiveConnectionException"
    by simp
  have o: "\<not> f_open sample_writer" "f_closes sample_writer = 0"
    by (simp_all add: sample_writer_def)
  have f: "csv_run None None [csv_halt_tick, csv_halt_tick] sample_writer =
      Finished (result (csv_run None None [csv_halt_tick, csv_halt_tick] sample_writer))"
    using sample_csv_run by (rule finished_result)
  show ?thesis
    using disconnect_not_guarded [where s = ?s and tr = sample_transport and now = 3000000000
        and e = "Raised ActiveConnectionException []"
        and ?s1.0 = "snd (check_for_timeout sample_transport 3000000000 ?s)"
        and w = sample_writer and open_exn = None and header_exn = None
        and ticks = "[csv_halt_tick, csv_halt_tick]"
        and w' = "result (csv_run None None [csv_halt_tick, csv_halt_tick] sample_writer)"
        and c = "\<lparr>client_address = ''EB:E5'', notifying = [''0001'', ''0002''],
                  disconnect_calls = 0\<rparr>"]
      c k i o f sample_csv_run sample_notified_checks(2)
    by simp
qed

text \<open>
  The claim as stated (one attempt per connection, no second call by the cleanup on the
  timeout path) fails: with one notification for \<open>ppg_red\<close> at 1 s and none after,
  the health check at 3 s disconnects, and the cleanup of \<^verbatim>\<open>run\<close> disconnects again.
\<close>

theorem disconnect_twice_counterexample:
  "calls (result (run sample_transport 0
     [notified_tick, sample_tick 2000000000, sample_tick 3000000000] sample_connection)) = 2 \<and>
   logged (result (run sample_transport 0
     [notified_tick, sample_tick 2000000000, sample_tick 3000000000] sample_connection)) =
     [(INFO, ''Established connection to SP-Case!''),
      (INFO, ''Enabled notifications for all characteristic for SP-Case!''),
      (WARNING, ''SP-Case: Timeout for characteristic ppg_red expired, disconnecting..''),
      (WARNING, ''Disconnected from SP-Case.''),
      (WARNING, ''Disconnected from SP-Case.'')]"
proof -
  let ?s = "fold deliver (during_sleep notified_tick) sample_connected"
  let ?s1 = "snd (check_for_timeout sample_transport 3000000000 ?s)"
  have h: "halt_is_set notified_tick = False" "clock notified_tick = 1000000000"
    by (simp_all add: notified_tick_def)
  have l: "poll_loop sample_transport
       [notified_tick, sample_tick 2000000000, sample_tick 3000000000] sample_connected =
     (Exited (Some (Raised ActiveConnectionException [])), ?s1)"
    using sample_notified_checks(2)
    by (simp add: h sample_quiet_check sample_connected_fields sample_tick_def
          sample_notified_fields sample_notified_checks(1) case_prod_beta)
  have t: "teardown sample_transport (Some (Raised ActiveConnectionException [])) ?s1 =
      set_state DISCONNECTED
        (?s1\<lparr>con := Some \<lparr>client_address = ''EB:E5'', notifying = [''0001'', ''0002''],
                            disconnect_calls = Suc (Suc 0)\<rparr>,
              logged := logged ?s1 @ [(WARNING, ''Disconnected from SP-Case.'')],
              did_disconnect := True\<rparr>)"
    by (simp add: teardown_def inner_finally_def outer_handlers_def
          sample_do_disconnect [OF sample_notified_checks(5)] sample_notified_checks(6))
  have r: "run sample_transport 0
       [notified_tick, sample_tick 2000000000, sample_tick 3000000000] sample_connection =
     Finished (teardown sample_transport (Some (Raised ActiveConnectionException [])) ?s1)"
    unfolding run_sample supervise_def l by simp
  show ?thesis
    unfolding r t
    by (simp add: set_state_def calls_def sample_notified_checks sample_connected_logged)
qed

subsection \<open>The keys of the scanner's table\<close>

lemma prepopulate_lookup:
  "prepopulate cfg adrs m a = (if a \<in> set adrs then Some (prepopulated cfg a) else m a)"
  by (induction adrs arbitrary: m) (auto simp add: prepopulated_def)

lemma add_if_matching_other:
  "a \<noteq> k \<Longrightarrow> add_if_matching cfg rs a d adv t m k = m k"
  by (induction rs arbitrary: m) (simp_all split: option.split)

lemma update_devices_other:
  "\<forall>x \<in> set ds. normalise_adr (address (fst x)) \<noteq> k \<Longrightarrow>
   update_devices normalise_adr cfg rs t ds m k = m k"
proof (induction ds arbitrary: m)
  case Nil
  show ?case by simp
next
  case (Cons x ds)
  obtain d adv where x: "x = (d, adv)" by (cases x)
  have n: "normalise_adr (address d) \<noteq> k" using Cons.prems x by simp
  have r: "\<forall>x \<in> set ds. normalise_adr (address (fst x)) \<noteq> k" using Cons.prems by simp
  show ?case
    using n by (simp add: x Cons.IH [OF r] Let_def add_if_matching_other split: option.split)
qed

lemma update_devices_dom:
  "dom (update_devices normalise_adr cfg rs t ds m) \<subseteq>
   dom m \<union> (\<lambda>x. normalise_adr (address (fst x))) ` set ds"
proof
  fix k
  assume k: "k \<in> dom (update_devices normalise_adr cfg rs t ds m)"
  show "k \<in> dom m \<union> (\<lambda>x. normalise_adr (address (fst x))) ` set ds"
  proof (cases "k \<in> (\<lambda>x. normalise_adr (address (fst x))) ` set ds")
    case True
    then show ?thesis by simp
  next
    case False
    then have "\<forall>x \<in> set ds. normalise_adr (address (fst x)) \<noteq> k" by auto
    then have "update_devices normalise_adr cfg rs t ds m k = m k"
      by (rule update_devices_other)
    then show ?thesis using k by (simp add: dom_def)
  qed
qed

lemma age_out_prepopulated: "age_out cfg now (prepopulated cfg' a) = prepopulated cfg' a"
  by (simp add: age_out_def prepopulated_def)

text \<open>
  Claim C3. An update adds keys only in normalised form: every key of the table after it was
  there before or is the normalised address of a scanned device. The constructor does not
  normalise: the keys it stores are the configured addresses as written. So for a
  configured address \<open>a\<close> that is not in normalised form the key is \<open>a\<close>, and a scan
  that reports the device at that very address leaves the pre-populated record as it was
  (never seen): the lookup of the scanned device misses it.
\<close>

theorem prepopulated_key_is_raw:
  "dom (update_devices normalise_adr cfg rs t ds m) \<subseteq>
     dom m \<union> (\<lambda>x. normalise_adr (address (fst x))) ` set ds \<and>
   dom (seen_devices (init_Scanner cfg)) = set (connect_device_adrs cfg) \<and>
   (a \<in> set (connect_device_adrs cfg) \<and> normalise_adr a \<noteq> a \<longrightarrow>
      seen_devices (init_Scanner cfg) a = Some (prepopulated cfg a) \<and>
      seen_devices
        (update_seen_devices normalise_adr [(\<lparr>address = a, ble_name = nm\<rparr>, adv)] t now
           (init_Scanner cfg)) a = Some (prepopulated cfg a))"
proof (intro conjI impI)
  show "dom (update_devices normalise_adr cfg rs t ds m) \<subseteq>
     dom m \<union> (\<lambda>x. normalise_adr (address (fst x))) ` set ds"
    by (rule update_devices_dom)
  show "dom (seen_devices (init_Scanner cfg)) = set (connect_device_adrs cfg)"
    by (auto simp add: init_Scanner_def prepopulate_lookup split: if_splits)
next
  assume h: "a \<in> set (connect_device_adrs cfg) \<and> normalise_adr a \<noteq> a"
  show i: "seen_devices (init_Scanner cfg) a = Some (prepopulated cfg a)"
    using h by (simp add: init_Scanner_def prepopulate_lookup)
  have "update_devices normalise_adr (scanner_config (init_Scanner cfg))
          (name_regexes (init_Scanner cfg)) t [(\<lparr>address = a, ble_name = nm\<rparr>, adv)]
          (seen_devices (init_Scanner cfg)) a = seen_devices (init_Scanner cfg) a"
    using h by (intro update_devices_other) simp
  then show "seen_devices
        (update_seen_devices normalise_adr [(\<lparr>address = a, ble_name = nm\<rparr>, adv)] t now
           (init_Scanner cfg)) a = Some (prepopulated cfg a)"
    using i by (simp add: update_seen_devices_def age_out_prepopulated)
qed

theorem prepopulated_key_is_raw_witness:
  "''eb:e5'' \<in> set (connect_device_adrs lower_case_config) \<and>
   upper_adr ''eb:e5'' = ''EB:E5'' \<and> upper_adr ''eb:e5'' \<noteq> ''eb:e5'' \<and>
   seen_devices (init_Scanner lower_case_config) ''eb:e5'' =
     Some (prepopulated lower_case_config ''eb:e5'') \<and>
   seen_devices (init_Scanner lower_case_config) (upper_adr ''eb:e5'') = None \<and>
   seen_devices
     (update_seen_devices upper_adr
        [(\<lparr>address = ''eb:e5'', ble_name = Some ''SmartPatch''\<rparr>, \<lparr>adv_rssi = - 60\<rparr>)]
        5000000000 5000000000 (init_Scanner lower_case_config)) ''eb:e5'' =
     Some (prepopulated lower_case_config ''eb:e5'') \<and>
   seen_state (prepopulated lower_case_config ''eb:e5'') = NOT_SEEN"
proof -
  have m: "''eb:e5'' \<in> set (connect_device_adrs lower_case_config)"
    by (simp add: lower_case_config_def)
  have u: "upper_adr ''eb:e5'' = ''EB:E5''" by (simp add: upper_adr_def)
  have n: "upper_adr ''eb:e5'' \<noteq> ''eb:e5''" by (simp add: u)
  have d: "seen_devices (init_Scanner lower_case_config) (upper_adr ''eb:e5'') = None"
    by (simp add: u init_Scanner_def lower_case_config_def)
  show ?thesis
    using prepopulated_key_is_raw [where cfg = lower_case_config and a = "''eb:e5''"
        and normalise_adr = upper_adr and nm = "Some ''SmartPatch''" and adv = "\<lparr>adv_rssi = - 60\<rparr>"
        and t = 5000000000 and now = 5000000000] m u n d
    by (simp add: prepopulated_def)
qed

subsection \<open>Exceptions in the scanner, the consumer and the writers\<close>






subsection \<open>The file of a writer\<close>

lemma csv_loop_csv:
  "csv_file_path (csv (snd (csv_loop ticks w))) = csv_file_path (csv w)"
  "csv_column_headers (csv (snd (csv_loop ticks w))) = csv_column_headers (csv w)"
  by (induction ticks arbitrary: w; simp add: Let_def split: list.split option.split)+

lemma csv_loop_appends:
  assumes "files w (csv_file_path (csv w)) = Some old"
  shows "\<exists>rest. files (snd (csv_loop ticks w)) (csv_file_path (csv w)) = Some (old @ rest) \<and>
                set rest \<subseteq> pending_rows ticks w"
  using assms
proof (induction ticks arbitrary: w old)
  case Nil
  then show ?case by simp
next
  case (Cons t ts)
  let ?p = "csv_file_path (csv w)"
  let ?q = "input_q (csv w) @ arrivals t"
  show ?case
  proof (cases ?q)
    case Nil
    let ?w1 = "w\<lparr>csv := (csv w)\<lparr>input_q := []\<rparr>\<rparr>"
    have f: "files ?w1 (csv_file_path (csv ?w1)) = Some old" using Cons.prems by simp
    obtain rest where r: "files (snd (csv_loop ts ?w1)) ?p = Some (old @ rest)"
        "set rest \<subseteq> pending_rows ts ?w1"
      using Cons.IH [OF f] by auto
    have "pending_rows ts ?w1 \<subseteq> pending_rows (t # ts) w"
      by (auto simp add: pending_rows_def)
    then show ?thesis
      using r Nil Cons.prems by (cases "csv_halt_is_set t") (auto simp add: Let_def)
  next
    case (Cons x rest')
    let ?w1 = "w\<lparr>csv := (csv w)\<lparr>input_q := rest'\<rparr>\<rparr>"
    have xin: "set (data x) \<subseteq> pending_rows (t # ts) w"
      using Cons by (auto simp add: pending_rows_def) (metis Un_iff list.set_intros(1) set_append)+
    have sub: "pending_rows ts ?w1 \<subseteq> pending_rows (t # ts) w"
      using Cons by (auto simp add: pending_rows_def) (metis Un_iff list.set_intros(2) set_append)+
    show ?thesis
    proof (cases "write_exn t")
      case None
      let ?w2 = "write_rows (data x) ?w1"
      have f: "files ?w2 (csv_file_path (csv ?w2)) = Some (old @ data x)"
        using Cons.prems by (simp add: write_rows_def)
      obtain rest where r: "files (snd (csv_loop ts ?w2)) ?p = Some ((old @ data x) @ rest)"
          "set rest \<subseteq> pending_rows ts ?w2"
        using Cons.IH [OF f] by auto
      have "pending_rows ts ?w2 = pending_rows ts ?w1" by (simp add: pending_rows_def)
      then have "set (data x @ rest) \<subseteq> pending_rows (t # ts) w"
        using r(2) xin sub by auto
      then show ?thesis
        using r(1) Cons None by (auto simp add: Let_def)
    next
      case (Some e)
      have f: "files ?w1 (csv_file_path (csv ?w1)) = Some old" using Cons.prems by simp
      obtain rest where r: "files (snd (csv_loop ts ?w1)) ?p = Some (old @ rest)"
          "set rest \<subseteq> pending_rows ts ?w1"
        using Cons.IH [OF f] by auto
      show ?thesis
        using r sub Cons Some Cons.prems by (cases "isinstance e TimeoutError") (auto simp add: Let_def)
    qed
  qed
qed


lemma csv_handlers_files [simp]:
  "files (csv_handlers p w) = files w"
  by (simp add: csv_handlers_def Let_def split: option.split)

lemma csv_run_files:
  "csv_open open_exn header_exn w = (None, w1) \<Longrightarrow>
   files (result (csv_run open_exn header_exn ticks w)) = files (snd (csv_loop ticks w1))"
  by (simp add: csv_run_def split: prod.split loop_result.split)

lemma csv_open_ok:
  "files w (csv_file_path (csv w)) = None \<Longrightarrow>
   csv_open None None w =
     (None, write_row (csv_column_headers (csv w))
              (w\<lparr>files := (files w)(csv_file_path (csv w) \<mapsto> []), f_open := True\<rparr>))"
  "files w (csv_file_path (csv w)) = Some old \<Longrightarrow>
   csv_open None header_exn w = (None, w\<lparr>f_open := True\<rparr>)"
  by (simp_all add: csv_open_def Let_def)

lemma sample_path:
  "file_path sample_config ''EB:E5'' ppg_red = ''logs/SP-Case_ppg_red.csv''"
  by (simp add: file_path_def sample_config_def ppg_red_def replace_char_def path_join_def)

lemma sample_paths:
  "device_aliases sample_config ''EB:E5'' = Some ''SP-Case''"
  "device_aliases sample_config ''AA:BB'' = None"
  "file_path sample_config ''AA:BB'' ppg_red = ''logs/AA_BB_ppg_red.csv''"
  by (simp_all add: file_path_def sample_config_def ppg_red_def replace_char_def path_join_def)

lemma sample_writer_files:
  "csv_file_path (csv sample_writer) = ''logs/SP-Case_ppg_red.csv''"
  "csv_file_path (csv existing_file_writer) = ''logs/SP-Case_ppg_red.csv''"
  "csv_column_headers (csv sample_writer) = [''index'', ''ppg red'']"
  "files sample_writer ''logs/SP-Case_ppg_red.csv'' = None"
  "files existing_file_writer ''logs/SP-Case_ppg_red.csv'' =
     Some [[Text ''index'', Text ''ppg red''], [Num 0, Num 4]]"
  by (simp_all add: sample_writer_def existing_file_writer_def)

lemma sample_runs:
  "files (result (csv_run None None [csv_halt_tick, csv_halt_tick] sample_writer))
     ''logs/SP-Case_ppg_red.csv'' =
     Some [[Text ''index'', Text ''ppg red''], [Num 0, Num 9]]"
  "files (result (csv_run None None [csv_halt_tick, csv_halt_tick] existing_file_writer))
     ''logs/SP-Case_ppg_red.csv'' =
     Some [[Text ''index'', Text ''ppg red''], [Num 0, Num 4], [Num 0, Num 9]]"
  by (simp_all add: csv_run_def csv_open_def sample_writer_def existing_file_writer_def
        csv_halt_tick_def write_row_def write_rows_def Let_def sample_record_def)

text \<open>
  Claim C8. The file name is made of the device's alias when the configuration has one,
  otherwise of the address with its colons replaced by underscores, then an underscore,
  the characteristic's name and \<^verbatim>\<open>.csv\<close> (spaces become underscores), in the configured
  folder. The first record for a path that the table does not hold creates the logger of
  that path, with the characteristic's column headers, and its writer task, and is put in
  its queue. The writer, when the open succeeds: if the file did not exist it is created
  and the headers are its first line, and all that follows are rows of records; if the file
  existed, it is opened without a header being written, what it held stays and only rows
  of records are appended.
\<close>

theorem first_record_opens_file:
  "(device_aliases cfg a = Some al \<longrightarrow>
      file_path cfg a ch =
        path_join (log2csv_folder_name cfg)
          (replace_char (CHR '' '') (CHR ''_'') (al @ ''_'' @ char_name ch @ ''.csv''))) \<and>
   (device_aliases cfg a = None \<longrightarrow>
      file_path cfg a ch =
        path_join (log2csv_folder_name cfg)
          (replace_char (CHR '' '') (CHR ''_'')
             (replace_char (CHR '':'') (CHR ''_'') a @ ''_'' @ char_name ch @ ''.csv''))) \<and>
   (file_outputs c (file_path (consumer_config c) (device_adr x) (characteristic x)) = None \<longrightarrow>
      file_outputs (log_to_file x c)
          (file_path (consumer_config c) (device_adr x) (characteristic x)) =
        Some \<lparr>csv_file_path = file_path (consumer_config c) (device_adr x) (characteristic x),
               input_q = [x], csv_column_headers = column_headers (characteristic x),
               active = True\<rparr> \<and>
      tasks (log_to_file x c) =
        tasks c @ [file_path (consumer_config c) (device_adr x) (characteristic x)]) \<and>
   (files w (csv_file_path (csv w)) = None \<longrightarrow>
      files (snd (csv_open None None w)) (csv_file_path (csv w)) =
        Some [map Text (csv_column_headers (csv w))] \<and>
      (\<exists>rest. files (result (csv_run None None ticks w)) (csv_file_path (csv w)) =
                Some (map Text (csv_column_headers (csv w)) # rest) \<and>
              set rest \<subseteq> pending_rows ticks w)) \<and>
   (files w (csv_file_path (csv w)) = Some old \<longrightarrow>
      snd (csv_open None header_exn w) = w\<lparr>f_open := True\<rparr> \<and>
      (\<exists>rest. files (result (csv_run None header_exn ticks w)) (csv_file_path (csv w)) =
                Some (old @ rest) \<and>
              set rest \<subseteq> pending_rows ticks w))"
proof (intro conjI impI)
  assume "device_aliases cfg a = Some al"
  then show "file_path cfg a ch =
        path_join (log2csv_folder_name cfg)
          (replace_char (CHR '' '') (CHR ''_'') (al @ ''_'' @ char_name ch @ ''.csv''))"
    by (simp add: file_path_def)
next
  assume "device_aliases cfg a = None"
  then show "file_path cfg a ch =
        path_join (log2csv_folder_name cfg)
          (replace_char (CHR '' '') (CHR ''_'')
             (replace_char (CHR '':'') (CHR ''_'') a @ ''_'' @ char_name ch @ ''.csv''))"
    by (simp add: file_path_def)
next
  assume n: "file_outputs c (file_path (consumer_config c) (device_adr x) (characteristic x)) = None"
  show "file_outputs (log_to_file x c)
          (file_path (consumer_config c) (device_adr x) (characteristic x)) =
        Some \<lparr>csv_file_path = file_path (consumer_config c) (device_adr x) (characteristic x),
               input_q = [x], csv_column_headers = column_headers (characteristic x),
               active = True\<rparr>"
    using n by (simp add: log_to_file_def Let_def)
  show "tasks (log_to_file x c) =
        tasks c @ [file_path (consumer_config c) (device_adr x) (characteristic x)]"
    using n by (simp add: log_to_file_def Let_def)
next
  assume n: "files w (csv_file_path (csv w)) = None"
  let ?p = "csv_file_path (csv w)"
  let ?h = "map Text (csv_column_headers (csv w))"
  let ?w1 = "write_row (csv_column_headers (csv w))
              (w\<lparr>files := (files w)(?p \<mapsto> []), f_open := True\<rparr>)"
  have o: "csv_open None None w = (None, ?w1)" using csv_open_ok(1) [OF n] .
  have f1: "files ?w1 (csv_file_path (csv ?w1)) = Some [?h]"
    by (simp add: write_row_def write_rows_def)
  have p1: "csv_file_path (csv ?w1) = ?p" "input_q (csv ?w1) = input_q (csv w)"
    by (simp_all add: write_row_def)
  show "files (snd (csv_open None None w)) ?p = Some [?h]"
    using f1 by (simp add: o p1)
  obtain rest where r: "files (snd (csv_loop ticks ?w1)) (csv_file_path (csv ?w1)) = Some ([?h] @ rest)"
      "set rest \<subseteq> pending_rows ticks ?w1"
    using csv_loop_appends [OF f1] by blast
  have "pending_rows ticks ?w1 = pending_rows ticks w"
    by (simp add: pending_rows_def p1)
  then show "\<exists>rest. files (result (csv_run None None ticks w)) ?p = Some (?h # rest) \<and>
              set rest \<subseteq> pending_rows ticks w"
    using r by (simp add: csv_run_files [OF o] p1)
next
  assume e: "files w (csv_file_path (csv w)) = Some old"
  let ?p = "csv_file_path (csv w)"
  let ?w1 = "w\<lparr>f_open := True\<rparr>"
  have o: "csv_open None header_exn w = (None, ?w1)" using csv_open_ok(2) [OF e] .
  show "snd (csv_open None header_exn w) = ?w1" by (simp add: o)
  have f1: "files ?w1 (csv_file_path (csv ?w1)) = Some old" using e by simp
  obtain rest where r: "files (snd (csv_loop ticks ?w1)) (csv_file_path (csv ?w1)) = Some (old @ rest)"
      "set rest \<subseteq> pending_rows ticks ?w1"
    using csv_loop_appends [OF f1] by blast
  have "pending_rows ticks ?w1 = pending_rows ticks w"
    by (simp add: pending_rows_def)
  then show "\<exists>rest. files (result (csv_run None header_exn ticks w)) ?p = Some (old @ rest) \<and>
              set rest \<subseteq> pending_rows ticks w"
    using r by (simp add: csv_run_files [OF o])
qed

theorem first_record_opens_file_witness:
  "device_aliases sample_config ''EB:E5'' = Some ''SP-Case'' \<and>
   file_path sample_config ''EB:E5'' ppg_red = ''logs/SP-Case_ppg_red.csv'' \<and>
   device_aliases sample_config ''AA:BB'' = None \<and>
   file_path sample_config ''AA:BB'' ppg_red = ''logs/AA_BB_ppg_red.csv'' \<and>
   file_outputs (init_Consumer_log2csv sample_config) ''logs/SP-Case_ppg_red.csv'' = None \<and>
   file_outputs (log_to_file sample_record (init_Consumer_log2csv sample_config))
       ''logs/SP-Case_ppg_red.csv'' =
     Some \<lparr>csv_file_path = ''logs/SP-Case_ppg_red.csv'', input_q = [sample_record],
            csv_column_headers = [''index'', ''ppg red''], active = True\<rparr> \<and>
   files sample_writer (csv_file_path (csv sample_writer)) = None \<and>
   files (snd (csv_open None None sample_writer)) ''logs/SP-Case_ppg_red.csv'' =
     Some [[Text ''index'', Text ''ppg red'']] \<and>
   files (result (csv_run None None [csv_halt_tick, csv_halt_tick] sample_writer))
       ''logs/SP-Case_ppg_red.csv'' =
     Some [[Text ''index'', Text ''ppg red''], [Num 0, Num 9]] \<and>
   files existing_file_writer (csv_file_path (csv existing_file_writer)) =
     Some [[Text ''index'', Text ''ppg red''], [Num 0, Num 4]] \<and>
   snd (csv_open None None existing_file_writer) = existing_file_writer\<lparr>f_open := True\<rparr> \<and>
   files (result (csv_run None None [csv_halt_tick, csv_halt_tick] existing_file_writer))
       ''logs/SP-Case_ppg_red.csv'' =
     Some [[Text ''index'', Text ''ppg red''], [Num 0, Num 4], [Num 0, Num 9]]"
proof -
  have n: "file_outputs (init_Consumer_log2csv sample_config)
      (file_path (consumer_config (init_Consumer_log2csv sample_config))
         (device_adr sample_record) (characteristic sample_record)) = None"
    by (simp add: init_Consumer_log2csv_def)
  have p: "file_path (consumer_config (init_Consumer_log2csv sample_config))
         (device_adr sample_record) (characteristic sample_record) = ''logs/SP-Case_ppg_red.csv''"
    by (simp add: init_Consumer_log2csv_def sample_record_def sample_path)
  have c: "column_headers (characteristic sample_record) = [''index'', ''ppg red'']"
    by (simp add: sample_record_def ppg_red_def)
  have m: "files sample_writer (csv_file_path (csv sample_writer)) = None"
    by (simp add: sample_writer_files)
  have e: "files existing_file_writer (csv_file_path (csv existing_file_writer)) =
      Some [[Text ''index'', Text ''ppg red''], [Num 0, Num 4]]"
    by (simp add: sample_writer_files)
  have t1: "file_path sample_config ''EB:E5'' ppg_red = ''logs/SP-Case_ppg_red.csv''"
    using first_record_opens_file [where cfg = sample_config and a = "''EB:E5''"
        and al = "''SP-Case''" and ch = ppg_red, THEN conjunct1, rule_format, OF sample_paths(1)]
    by (simp add: sample_config_def ppg_red_def replace_char_def path_join_def)
  have t2: "file_path sample_config ''AA:BB'' ppg_red = ''logs/AA_BB_ppg_red.csv''"
    using first_record_opens_file [where cfg = sample_config and a = "''AA:BB''" and ch = ppg_red,
        THEN conjunct2, THEN conjunct1, rule_format, OF sample_paths(2)]
    by (simp add: sample_config_def ppg_red_def replace_char_def path_join_def)
  have t3: "file_outputs (log_to_file sample_record (init_Consumer_log2csv sample_config))
       ''logs/SP-Case_ppg_red.csv'' =
     Some \<lparr>csv_file_path = ''logs/SP-Case_ppg_red.csv'', input_q = [sample_record],
            csv_column_headers = [''index'', ''ppg red''], active = True\<rparr>"
    using first_record_opens_file [where c = "init_Consumer_log2csv sample_config"
        and x = sample_record, THEN conjunct2, THEN conjunct2, THEN conjunct1, rule_format, OF n]
    by (simp add: p c)
  have t4: "files (snd (csv_open None None sample_writer)) ''logs/SP-Case_ppg_red.csv'' =
     Some [[Text ''index'', Text ''ppg red'']]"
    using first_record_opens_file [where w = sample_writer, THEN conjunct2, THEN conjunct2,
        THEN conjunct2, THEN conjunct1, rule_format, OF m]
    by (simp add: sample_writer_files)
  have t5: "snd (csv_open None None existing_file_writer) = existing_file_writer\<lparr>f_open := True\<rparr>"
    using first_record_opens_file [where w = existing_file_writer and header_exn = None,
        THEN conjunct2, THEN conjunct2, THEN conjunct2, THEN conjunct2, rule_format, OF e]
    by simp
  show ?thesis
    using t1 t2 t3 t4 t5 m e sample_paths(1,2) sample_runs
    by (simp add: init_Consumer_log2csv_def)
qed

subsection \<open>The output queue\<close>

lemma put_nowait_full: "full q \<Longrightarrow> put_nowait x q = (Some (Raised QueueFull []), q)"
  by (simp add: put_nowait_def)

lemma put_nowait_free: "\<not> full q \<Longrightarrow> put_nowait x q = (None, q\<lparr>items := items q @ [x]\<rparr>)"
  by (simp add: put_nowait_def)

lemma sample_first_notification:
  "notif_callback 3 [9] ppg_red sample_connection =
     sample_connection\<lparr>last_notif := (last_notif sample_connection)(''0001'' \<mapsto> Some 3),
        output_q := \<lparr>maxsize = 1, items = [\<lparr>device_adr = ''EB:E5'', device_name = ''SP-Case'',
            characteristic = ppg_red, data = [[Num 0, Num 9]], raw_data = [9]\<rparr>]\<rparr>\<rparr>"
  by (simp add: notif_callback_def sample_connection_def init_ActiveConnection_def ppg_red_def
        sample_decoder_def put_nowait_def full_def)

text \<open>
  Claim C7. The notification callback never waits for the output queue. For a notification
  that decodes to at least one row: on a full queue the queue is left as it is (only the
  new record is lost) and one error is logged; otherwise the record is appended and
  nothing is logged. With capacity 1 and an empty queue, of two such notifications in a
  row the first is enqueued and the second is dropped with the error logged.
\<close>

theorem notif_callback_drops_newest:
  assumes dec: "data_decoder ch d = Inr rows" and ne: "rows \<noteq> []"
  shows "(full (output_q s) \<longrightarrow>
            output_q (notif_callback now d ch s) = output_q s \<and>
            logged (notif_callback now d ch s) =
              logged s @ [(ERROR, name s @ '' failed to put data into queue!'')]) \<and>
         (\<not> full (output_q s) \<longrightarrow>
            output_q (notif_callback now d ch s) =
              (output_q s)\<lparr>items := items (output_q s) @
                 [\<lparr>device_adr = adr s, device_name = name s, characteristic = ch,
                   data = rows, raw_data = d\<rparr>]\<rparr> \<and>
            logged (notif_callback now d ch s) = logged s) \<and>
         (maxsize (output_q s) = 1 \<and> items (output_q s) = [] \<and>
          data_decoder ch' d' = Inr rows' \<and> rows' \<noteq> [] \<longrightarrow>
            items (output_q (notif_callback now' d' ch' (notif_callback now d ch s))) =
              [\<lparr>device_adr = adr s, device_name = name s, characteristic = ch,
                data = rows, raw_data = d\<rparr>] \<and>
            logged (notif_callback now' d' ch' (notif_callback now d ch s)) =
              logged s @ [(ERROR, name s @ '' failed to put data into queue!'')])"
proof (intro conjI impI)
  assume f: "full (output_q s)"
  show "output_q (notif_callback now d ch s) = output_q s"
    using dec ne f by (simp add: notif_callback_def put_nowait_full emit_def)
  show "logged (notif_callback now d ch s) =
              logged s @ [(ERROR, name s @ '' failed to put data into queue!'')]"
    using dec ne f by (simp add: notif_callback_def put_nowait_full emit_def)
next
  assume f: "\<not> full (output_q s)"
  show "output_q (notif_callback now d ch s) =
              (output_q s)\<lparr>items := items (output_q s) @
                 [\<lparr>device_adr = adr s, device_name = name s, characteristic = ch,
                   data = rows, raw_data = d\<rparr>]\<rparr>"
    using dec ne f by (simp add: notif_callback_def put_nowait_free)
  show "logged (notif_callback now d ch s) = logged s"
    using dec ne f by (simp add: notif_callback_def put_nowait_free)
next
  assume a: "maxsize (output_q s) = 1 \<and> items (output_q s) = [] \<and>
          data_decoder ch' d' = Inr rows' \<and> rows' \<noteq> []"
  have nf: "\<not> full (output_q s)" using a by (simp add: full_def)
  let ?s1 = "notif_callback now d ch s"
  have q1: "output_q ?s1 = (output_q s)\<lparr>items := [\<lparr>device_adr = adr s, device_name = name s,
                   characteristic = ch, data = rows, raw_data = d\<rparr>]\<rparr>"
    using dec ne nf a by (simp add: notif_callback_def put_nowait_free)
  have l1: "logged ?s1 = logged s" "name ?s1 = name s"
    using dec ne nf by (simp_all add: notif_callback_def put_nowait_free)
  have f1: "full (output_q ?s1)" using q1 a by (simp add: full_def)
  show "items (output_q (notif_callback now' d' ch' ?s1)) =
              [\<lparr>device_adr = adr s, device_name = name s, characteristic = ch,
                data = rows, raw_data = d\<rparr>]"
    using a f1 q1 by (simp add: notif_callback_def[of now' d' ch' ?s1] put_nowait_full emit_def)
  show "logged (notif_callback now' d' ch' ?s1) =
              logged s @ [(ERROR, name s @ '' failed to put data into queue!'')]"
    using a f1 l1 by (simp add: notif_callback_def[of now' d' ch' ?s1] put_nowait_full emit_def)
qed

theorem notif_callback_drops_newest_witness:
  "data_decoder ppg_red [9] = Inr [[Num 0, Num 9]] \<and>
   data_decoder temp [7, 1] = Inr [[Num 1, Num 7]] \<and>
   maxsize (output_q sample_connection) = 1 \<and> items (output_q sample_connection) = [] \<and>
   \<not> full (output_q sample_connection) \<and>
   full (output_q (notif_callback 3 [9] ppg_red sample_connection)) \<and>
   items (output_q (notif_callback 5 [7, 1] temp (notif_callback 3 [9] ppg_red sample_connection))) =
     [\<lparr>device_adr = ''EB:E5'', device_name = ''SP-Case'', characteristic = ppg_red,
       data = [[Num 0, Num 9]], raw_data = [9]\<rparr>] \<and>
   logged (notif_callback 5 [7, 1] temp (notif_callback 3 [9] ppg_red sample_connection)) =
     [(ERROR, ''SP-Case failed to put data into queue!'')]"
proof -
  have d1: "data_decoder ppg_red [9] = Inr [[Num 0, Num 9]]"
    by (simp add: ppg_red_def sample_decoder_def)
  have d2: "data_decoder temp [7, 1] = Inr [[Num 1, Num 7]]"
    by (simp add: temp_def sample_decoder_def)
  have q: "maxsize (output_q sample_connection) = 1 \<and> items (output_q sample_connection) = []"
    by (simp add: sample_connection_def init_ActiveConnection_def)
  have nf: "\<not> full (output_q sample_connection)"
    using q by (simp add: full_def)
  have f: "full (output_q (notif_callback 3 [9] ppg_red sample_connection))"
    by (simp add: sample_first_notification full_def)
  have n: "adr sample_connection = ''EB:E5''" "name sample_connection = ''SP-Case''"
    "logged sample_connection = []"
    by (simp_all add: sample_connection_def init_ActiveConnection_def)
  show ?thesis
    using notif_callback_drops_newest [OF d1, where s = sample_connection and ch' = temp
        and d' = "[7, 1]" and rows' = "[[Num 1, Num 7]]" and now = 3 and now' = 5]
      notif_callback_drops_newest [OF d2, where s = "notif_callback 3 [9] ppg_red sample_connection"
        and now = 5]
      d1 d2 q nf f n
    by simp
qed

subsection \<open>The timestamp of the last notification\<close>

text \<open>
  Claim C9. The callback stores the timestamp before it decodes, so the entry of the
  characteristic holds the time of the notification whatever the decoder does; when the
  decoder raises or returns no row, nothing is put in the queue. The health check of that
  characteristic, made at a reading no more than its timeout later, passes without a
  disconnect: a device that keeps sending such notifications is not timed out on it.
\<close>

theorem timestamp_before_decoding:
  "last_notif (notif_callback now d ch s) (uuid ch) = Some (Some now) \<and>
   ((\<exists>e. data_decoder ch d = Inl e) \<or> data_decoder ch d = Inr [] \<longrightarrow>
      output_q (notif_callback now d ch s) = output_q s) \<and>
   (timeout ch = Some t \<and> has_been now' now \<le> t \<longrightarrow>
      check_chars tr now' [ch] (notif_callback now d ch s) = (None, notif_callback now d ch s))"
proof (intro conjI impI)
  show l: "last_notif (notif_callback now d ch s) (uuid ch) = Some (Some now)"
    by (simp add: notif_callback_def Let_def emit_def split: sum.split prod.split option.split)
  show "timeout ch = Some t \<and> has_been now' now \<le> t \<Longrightarrow>
      check_chars tr now' [ch] (notif_callback now d ch s) = (None, notif_callback now d ch s)"
    using l by simp
  show "(\<exists>e. data_decoder ch d = Inl e) \<or> data_decoder ch d = Inr [] \<Longrightarrow>
      output_q (notif_callback now d ch s) = output_q s"
    by (auto simp add: notif_callback_def emit_def)
qed

theorem timestamp_before_decoding_witness:
  "data_decoder ppg_red [255] = Inl (Raised OtherException ''bad payload'') \<and>
   data_decoder ppg_red [] = Inr [] \<and>
   timeout ppg_red = Some (3 / 2) \<and> has_been 4000000000 3000000000 \<le> 3 / 2 \<and>
   last_notif (notif_callback 3000000000 [255] ppg_red sample_connection) (uuid ppg_red) =
     Some (Some 3000000000) \<and>
   output_q (notif_callback 3000000000 [255] ppg_red sample_connection) =
     output_q sample_connection \<and>
   output_q (notif_callback 3000000000 [] ppg_red sample_connection) =
     output_q sample_connection \<and>
   check_chars sample_transport 4000000000 [ppg_red]
       (notif_callback 3000000000 [255] ppg_red sample_connection) =
     (None, notif_callback 3000000000 [255] ppg_red sample_connection)"
proof -
  have d1: "data_decoder ppg_red [255] = Inl (Raised OtherException ''bad payload'')"
    by (simp add: ppg_red_def sample_decoder_def)
  have d2: "data_decoder ppg_red [] = Inr []"
    by (simp add: ppg_red_def sample_decoder_def)
  have t: "timeout ppg_red = Some (3 / 2)"
    by (simp add: ppg_red_def)
  have h: "has_been 4000000000 3000000000 \<le> 3 / 2"
    by (simp add: has_been_def)
  show ?thesis
    using timestamp_before_decoding [where ch = ppg_red and d = "[255]" and s = sample_connection
        and now = 3000000000 and now' = 4000000000 and t = "3 / 2" and tr = sample_transport]
      timestamp_before_decoding [where ch = ppg_red and d = "[]" and s = sample_connection
        and now = 3000000000]
      d1 d2 t h
    by simp
qed

subsection \<open>Routing to a writer that has ended\<close>

lemma log_to_file_logged: "consumer_logged (log_to_file x c) = consumer_logged c"
  by (simp add: log_to_file_def Let_def split: option.split)

lemma log_to_file_inactive:
  "file_outputs c (file_path (consumer_config c) (device_adr x) (characteristic x)) = Some lg \<Longrightarrow>
   \<not> active lg \<Longrightarrow> log_to_file x c = c"
  by (simp add: log_to_file_def Let_def)

lemma log_to_file_other:
  "file_path (consumer_config c) (device_adr x) (characteristic x) \<noteq> p \<Longrightarrow>
   file_outputs (log_to_file x c) p = file_outputs c p"
  by (simp add: log_to_file_def Let_def split: option.split)

lemma log_to_file_keeps_inactive:
  "file_outputs c p = Some lg \<Longrightarrow> \<not> active lg \<Longrightarrow> file_outputs (log_to_file x c) p = Some lg"
  by (cases "file_path (consumer_config c) (device_adr x) (characteristic x) = p")
     (simp_all add: log_to_file_inactive log_to_file_other)

lemma fold_log_to_file_keeps_inactive:
  "file_outputs c p = Some lg \<Longrightarrow> \<not> active lg \<Longrightarrow> file_outputs (fold log_to_file xs c) p = Some lg"
  by (induction xs arbitrary: c) (simp_all add: log_to_file_keeps_inactive)

lemma fold_log_to_file_logged: "consumer_logged (fold log_to_file xs c) = consumer_logged c"
  by (induction xs arbitrary: c) (simp_all add: log_to_file_logged)

lemma fold_log_to_file_inactive:
  "file_outputs c p = Some lg \<Longrightarrow> \<not> active lg \<Longrightarrow>
   \<forall>x \<in> set xs. file_path (consumer_config c) (device_adr x) (characteristic x) = p \<Longrightarrow>
   fold log_to_file xs c = c"
  by (induction xs) (simp_all add: log_to_file_inactive)

lemma csv_handlers_inactive: "\<not> active (csv (csv_handlers p w))"
  by (simp add: csv_handlers_def Let_def split: option.split)

lemma csv_run_Finished_inactive: "csv_run oe he ticks w = Finished w' \<Longrightarrow> \<not> active (csv w')"
  by (auto simp add: csv_run_def csv_handlers_inactive
        split: prod.splits option.splits loop_result.splits)

text \<open>
  Claim C10. When a writer task has ended (its logger is inactive) and the consumer's
  table holds that logger under the path \<open>p\<close>, then whatever records are routed
  afterwards, the entry under \<open>p\<close> stays the same logger (the key is not removed, no
  record is added to its queue, no new logger replaces it) and the consumer logs nothing;
  if all those records belong to \<open>p\<close>, the consumer is left exactly as it was.
\<close>

theorem terminated_writer_discards:
  assumes "csv_run open_exn header_exn ticks w = Finished w'"
      and "file_outputs c p = Some (csv w')"
  shows "file_outputs (fold log_to_file xs c) p = Some (csv w') \<and>
         consumer_logged (fold log_to_file xs c) = consumer_logged c \<and>
         ((\<forall>x \<in> set xs. file_path (consumer_config c) (device_adr x) (characteristic x) = p) \<longrightarrow>
            fold log_to_file xs c = c)"
  using assms
  by (simp add: fold_log_to_file_keeps_inactive fold_log_to_file_logged fold_log_to_file_inactive
        csv_run_Finished_inactive)

theorem terminated_writer_discards_witness:
  "csv_run (Some no_such_folder) None [] sample_writer =
     Finished (csv_handlers (Some no_such_folder) sample_writer) \<and>
   file_outputs sample_consumer ''logs/SP-Case_ppg_red.csv'' =
     Some (csv (csv_handlers (Some no_such_folder) sample_writer)) \<and>
   file_path (consumer_config sample_consumer) (device_adr sample_record)
       (characteristic sample_record) = ''logs/SP-Case_ppg_red.csv'' \<and>
   fold log_to_file [sample_record, sample_record] sample_consumer = sample_consumer"
proof -
  have r: "csv_run (Some no_such_folder) None [] sample_writer =
     Finished (csv_handlers (Some no_such_folder) sample_writer)"
    by (simp add: csv_run_def csv_open_def)
  have f: "file_outputs sample_consumer ''logs/SP-Case_ppg_red.csv'' =
     Some (csv (csv_handlers (Some no_such_folder) sample_writer))"
    by (simp add: sample_consumer_def)
  have p: "file_path (consumer_config sample_consumer) (device_adr sample_record)
       (characteristic sample_record) = ''logs/SP-Case_ppg_red.csv''"
    by (simp add: sample_consumer_def init_Consumer_log2csv_def sample_record_def sample_path)
  show ?thesis
    using terminated_writer_discards [OF r f, where xs = "[sample_record, sample_record]"] r f p
    by simp
qed

end
